theory Spec2Isabelle
  imports
    Main
    "HOL-Library.Word"
    "HOL-Library.Char_ord"
    "HOL-Library.List_Lexorder"
    "HOL-Library.Multiset"
begin

section \<open>The consul service watcher of go-upstream\<close>

text \<open>
  This theory embeds \<^verbatim>\<open>tpc/inf/go-upstream/registry/consul/service.go\<close>:
  the two comparison functions \<^verbatim>\<open>checkClusterChanged\<close> and
  \<^verbatim>\<open>checkCheckersEqual\<close>, the catalog resolution
  (\<^verbatim>\<open>servicesConfig\<close>, \<^verbatim>\<open>serviceConfig\<close>), the loop body of the
  per-datacenter watcher \<^verbatim>\<open>watchService\<close> and the loop body of the
  aggregator \<^verbatim>\<open>watchServices\<close>.

  Go strings are byte sequences compared bytewise, which is the lexicographic
  order of \<^typ>\<open>string\<close> over the byte order of \<^typ>\<open>char\<close>.
\<close>

subsection \<open>Go slices\<close>

text \<open>
  A Go slice is either \<^verbatim>\<open>nil\<close> or holds a sequence of elements, and
  \<^verbatim>\<open>reflect.DeepEqual\<close> tells a nil slice from an empty one that is not nil.
  The distinction is kept, so that \<^verbatim>\<open>reflect.DeepEqual\<close> on the
  values modelled below is exactly HOL equality: two slices are deeply equal when both
  are nil, or neither is and they hold deeply equal elements in the same order; strings
  and integers are deeply equal when they are equal; structs when their fields are.
\<close>

datatype 'a slice = NilSlice | Slice "'a list"

fun elems :: "'a slice \<Rightarrow> 'a list" where
  "elems NilSlice = []"
| "elems (Slice xs) = xs"

definition len :: "'a slice \<Rightarrow> nat" where
  "len s = length (elems s)"

text \<open>
  \<^verbatim>\<open>append(s, xs...)\<close>: with nothing to add the slice is returned as it is
  (a nil slice stays nil); otherwise the result is not nil.
\<close>

fun append_slice :: "'a slice \<Rightarrow> 'a list \<Rightarrow> 'a slice" where
  "append_slice s [] = s"
| "append_slice s (x # xs) = Slice (elems s @ x # xs)"

subsection \<open>Data model\<close>

text \<open>
  The fields of \<^verbatim>\<open>api.HealthCheck\<close>, \<^verbatim>\<open>api.CatalogService\<close> and
  \<^verbatim>\<open>api.ServiceEntry\<close> that the watcher reads, and
  \<^verbatim>\<open>registry.Endpoint\<close> and \<^verbatim>\<open>registry.Cluster\<close> as the watcher
  builds them. The lists hold pointers in the source; a nil pointer in one of them would
  make the code panic and is not part of the model.
\<close>

record HealthCheck =
  Node :: string
  CheckID :: string
  Name :: string
  Status :: string
  ServiceID :: string
  ServiceName :: string
  ServiceTags :: "string slice"

record ServiceEntry =
  Checks :: "HealthCheck list"

record CatalogService =
  ServiceID :: string
  ServiceAddress :: string
  Address :: string
  ServicePort :: int
  ServiceTags :: "string slice"
  Datacenter :: string

record Endpoint =
  ID :: string
  Addr :: string
  Port :: int
  Tags :: "string slice"

record Cluster =
  Name :: string
  Endpoints :: "Endpoint slice"

subsection \<open>\<^verbatim>\<open>checkClusterChanged\<close>\<close>

text \<open>
  \<^verbatim>\<open>sort.Sort(endpointSlice(c.Endpoints))\<close> orders the endpoints of a cluster in
  place by \<^verbatim>\<open>ID\<close>; a nil slice stays nil. \<^verbatim>\<open>sort.Sort\<close> is a routine of
  Go's library, so the model takes it as a parameter \<open>srt\<close>, a function on the list of
  endpoints, and the general theorems assume of it what Go promises, \<open>sorting\<close>: the
  result is a permutation of the slice, in non-decreasing order of \<^verbatim>\<open>ID\<close>. Go
  promises nothing about the order of endpoints of equal \<^verbatim>\<open>ID\<close>. On short slices
  (of at most 6 elements in every release of Go, of at most 12 since Go 1.19)
  \<^verbatim>\<open>sort.Sort\<close> is an insertion sort, which keeps endpoints of equal \<^verbatim>\<open>ID\<close> in
  their order, as \<^const>\<open>sort_key\<close> does: \<open>insertionSort\<close> is the routine on the
  short slices of the examples.
\<close>

definition sorting :: "(Endpoint list \<Rightarrow> Endpoint list) \<Rightarrow> bool" where
  "sorting srt \<longleftrightarrow> (\<forall>xs. mset (srt xs) = mset xs \<and> sorted (map ID (srt xs)))"

definition insertionSort :: "Endpoint list \<Rightarrow> Endpoint list" where
  "insertionSort = sort_key ID"

definition sort_Sort :: "(Endpoint list \<Rightarrow> Endpoint list) \<Rightarrow> Endpoint slice \<Rightarrow> Endpoint slice" where
  "sort_Sort srt s = (case s of NilSlice \<Rightarrow> NilSlice | Slice xs \<Rightarrow> Slice (srt xs))"

text \<open>
  The closure \<^verbatim>\<open>checkCluster\<close> sorts the endpoints of both clusters in place
  and reports whether the sorted slices are not deeply equal. The clusters are reached
  through pointers, so the sorting is visible to the caller: the model returns both
  clusters as the call leaves them.
\<close>

definition checkCluster ::
  "(Endpoint list \<Rightarrow> Endpoint list) \<Rightarrow> Cluster \<Rightarrow> Cluster \<Rightarrow> bool \<times> Cluster \<times> Cluster" where
  "checkCluster srt c1 c2 =
     (let c1' = c1\<lparr>Endpoints := sort_Sort srt (Endpoints c1)\<rparr>;
          c2' = c2\<lparr>Endpoints := sort_Sort srt (Endpoints c2)\<rparr>
      in (Endpoints c1' \<noteq> Endpoints c2', c1', c2'))"

text \<open>
  The loop \<^verbatim>\<open>for i := 0; i < len(new); i++\<close> over the positional pairs
  \<^verbatim>\<open>(new[i], last[i])\<close>: it returns at the first pair that differs, leaving
  the pairs after it untouched.
\<close>

fun checkLoop ::
  "(Endpoint list \<Rightarrow> Endpoint list) \<Rightarrow> (Cluster \<times> Cluster) list \<Rightarrow>
   bool \<times> (Cluster \<times> Cluster) list" where
  "checkLoop srt [] = (False, [])"
| "checkLoop srt ((c1, c2) # ps) =
     (case checkCluster srt c1 c2 of (changed, c1', c2') \<Rightarrow>
        if changed then (True, (c1', c2') # ps)
        else (case checkLoop srt ps of (r, ps') \<Rightarrow> (r, (c1', c2') # ps')))"

text \<open>
  \<^verbatim>\<open>checkClusterChanged(new, last)\<close>: the result, and the two lists as the call
  leaves them (\<open>lst\<close> stands for the parameter \<^verbatim>\<open>last\<close>). When the lengths
  differ it returns before any sorting.
\<close>

definition checkClusterChanged ::
  "(Endpoint list \<Rightarrow> Endpoint list) \<Rightarrow> Cluster list \<Rightarrow> Cluster list \<Rightarrow>
   bool \<times> Cluster list \<times> Cluster list" where
  "checkClusterChanged srt new lst =
     (if length new \<noteq> length lst then (True, new, lst)
      else (case checkLoop srt (zip new lst) of (r, ps) \<Rightarrow> (r, map fst ps, map snd ps)))"

subsection \<open>\<^verbatim>\<open>checkCheckersEqual\<close>\<close>

text \<open>
  The condition of the inner loop: the six string fields are equal and the
  \<^verbatim>\<open>ServiceTags\<close> slices are deeply equal.
\<close>

definition checkMatch :: "HealthCheck \<Rightarrow> HealthCheck \<Rightarrow> bool" where
  "checkMatch j h \<longleftrightarrow>
     Node j = Node h \<and> CheckID j = CheckID h \<and> HealthCheck.Name j = HealthCheck.Name h \<and>
     Status j = Status h \<and> HealthCheck.ServiceID j = HealthCheck.ServiceID h \<and>
     ServiceName j = ServiceName h \<and> HealthCheck.ServiceTags j = HealthCheck.ServiceTags h"

text \<open>The closure \<^verbatim>\<open>checkIn(h1, h2)\<close>: every element of \<open>h1\<close> has a match in \<open>h2\<close>.\<close>

definition checkIn :: "HealthCheck list \<Rightarrow> HealthCheck list \<Rightarrow> bool" where
  "checkIn h1 h2 = list_all (\<lambda>h. list_ex (\<lambda>j. checkMatch j h) h2) h1"

definition checkCheckersEqual :: "HealthCheck list \<Rightarrow> HealthCheck list \<Rightarrow> bool" where
  "checkCheckersEqual old new \<longleftrightarrow> checkIn old new \<and> checkIn new old"

subsection \<open>Effects\<close>

text \<open>
  The calls that leave the watcher, in the order the code makes them: a catalog lookup
  \<^verbatim>\<open>client.Catalog().Service(name, "", q)\<close> with \<^verbatim>\<open>q.Datacenter = dc\<close>,
  the deferred \<^verbatim>\<open>cluster.AddEnvTag()\<close> on the cluster of a service name, a send
  on the output channel, and the one-second sleep after a failed fetch. Calls of the
  logger are left out.
\<close>

datatype effect =
  CallCatalog string string
| CallAddEnvTag string
| Send "Cluster list"
| Sleep

subsection \<open>\<^verbatim>\<open>serviceConfig\<close>\<close>

text \<open>
  The body of the loop over the catalog instances, for an instance that passed: its tags
  and the tag \<^verbatim>\<open>"dc=" + svc.Datacenter\<close> are appended to a nil slice and sorted
  with \<^verbatim>\<open>sort.Strings\<close>; the address is \<^verbatim>\<open>svc.ServiceAddress\<close>, or
  \<^verbatim>\<open>svc.Address\<close> when that is the empty string.
\<close>

definition endpoint :: "CatalogService \<Rightarrow> Endpoint" where
  "endpoint svc =
     (let svctags = append_slice NilSlice (elems (ServiceTags svc));
          svctags = append_slice svctags [''dc='' @ Datacenter svc];
          svctags = Slice (sort (elems svctags));
          addr = ServiceAddress svc;
          addr = (if addr = [] then Address svc else addr)
      in \<lparr>ID = ServiceID svc, Addr = addr, Port = ServicePort svc, Tags = svctags\<rparr>)"

text \<open>
  The loop \<^verbatim>\<open>for _, svc := range svcs\<close>: an instance whose
  \<^verbatim>\<open>ServiceID\<close> is not a key of \<^verbatim>\<open>passing\<close> is skipped, the endpoint of
  every other one is appended to \<^verbatim>\<open>cluster.Endpoints\<close>. The code stores only
  \<^verbatim>\<open>true\<close> in a \<^verbatim>\<open>map[string]bool\<close> of passing ids and reads only
  whether a key is present and how many there are, so the map is its set of keys.
\<close>

definition endpointLoop ::
  "string set \<Rightarrow> CatalogService list \<Rightarrow> Endpoint slice \<Rightarrow> Endpoint slice" where
  "endpointLoop passing svcs eps =
     fold (\<lambda>svc eps. if ServiceID svc \<notin> passing then eps
                      else append_slice eps [endpoint svc]) svcs eps"

text \<open>
  \<^verbatim>\<open>serviceConfig\<close>. The registry's catalog is the parameter \<open>catalog\<close>: for a
  service name and a datacenter it answers with the instances, or with \<open>None\<close> when
  the call returns an error. \<^verbatim>\<open>Cluster.AddEnvTag\<close> is a method of the package
  \<^verbatim>\<open>registry\<close>, whose source is not part of the files at hand; it is the
  parameter \<open>addEnvTag\<close>. The \<^verbatim>\<open>defer\<close> statement stands after the return on
  a failed lookup, so the method runs only when the lookup succeeded, after the loop.
\<close>

definition serviceConfig ::
  "(Cluster \<Rightarrow> Cluster) \<Rightarrow> (string \<Rightarrow> string \<Rightarrow> CatalogService list option) \<Rightarrow>
   string \<Rightarrow> string set \<Rightarrow> string \<Rightarrow> Cluster \<times> effect list" where
  "serviceConfig addEnvTag catalog name passing dc =
     (let cluster = \<lparr>Name = name, Endpoints = Slice []\<rparr>
      in if name = [] \<or> passing = {} then (cluster, [])
         else (case catalog name dc of
                 None \<Rightarrow> (cluster, [CallCatalog name dc])
               | Some svcs \<Rightarrow>
                   (addEnvTag (cluster\<lparr>Endpoints := endpointLoop passing svcs (Endpoints cluster)\<rparr>),
                    [CallCatalog name dc, CallAddEnvTag name])))"

text \<open>
  Modelled from the spec: \<^verbatim>\<open>Cluster.AddEnvTag\<close>, whose source is missing. The spec
  says that a fixed environment tag is appended, and shows it as the last tag of every
  endpoint of the cluster. It is used where a concrete instance of the parameter
  \<open>addEnvTag\<close> is needed.
\<close>

definition AddEnvTag :: "string \<Rightarrow> Cluster \<Rightarrow> Cluster" where
  "AddEnvTag env c =
     c\<lparr>Endpoints :=
         (case Endpoints c of
            NilSlice \<Rightarrow> NilSlice
          | Slice es \<Rightarrow> Slice (map (\<lambda>e. e\<lparr>Tags := append_slice (Tags e) [env]\<rparr>) es))\<rparr>"

subsection \<open>\<^verbatim>\<open>servicesConfig\<close>\<close>

text \<open>
  The first loop fills the map \<^verbatim>\<open>m\<close> from service names to the set of passing
  service ids: \<^verbatim>\<open>m[name]\<close> is created when the name is new, and
  \<^verbatim>\<open>m[name][id] = true\<close> is stored.
\<close>

definition addCheck ::
  "HealthCheck \<Rightarrow> (string \<rightharpoonup> string set) \<Rightarrow> (string \<rightharpoonup> string set)" where
  "addCheck check m =
     (let name = ServiceName check; sid = HealthCheck.ServiceID check
      in case m name of
           None \<Rightarrow> m(name \<mapsto> {sid})
         | Some passing \<Rightarrow> m(name \<mapsto> insert sid passing))"

definition groupChecks :: "HealthCheck list \<Rightarrow> (string \<rightharpoonup> string set)" where
  "groupChecks checks = fold addCheck checks Map.empty"

text \<open>
  The second loop, \<^verbatim>\<open>for name, passing := range m\<close>, visits every key of the map
  once, in an order that the Go runtime chooses anew for every loop. The order is the
  parameter \<open>order\<close>; \<open>rangeOrder m order\<close> says that it is an order in which
  \<^verbatim>\<open>range m\<close> can run.
\<close>

definition rangeOrder :: "('k \<rightharpoonup> 'v) \<Rightarrow> 'k list \<Rightarrow> bool" where
  "rangeOrder m order \<longleftrightarrow> distinct order \<and> set order = dom m"

definition servicesConfig ::
  "(Cluster \<Rightarrow> Cluster) \<Rightarrow> (string \<Rightarrow> string \<Rightarrow> CatalogService list option) \<Rightarrow>
   string list \<Rightarrow> HealthCheck list \<Rightarrow> string \<Rightarrow> Cluster list \<times> effect list" where
  "servicesConfig addEnvTag catalog order checks dc =
     (let m = groupChecks checks
      in fold (\<lambda>name (clusters, effs).
                 case m name of
                   None \<Rightarrow> (clusters, effs)
                 | Some passing \<Rightarrow>
                     (case serviceConfig addEnvTag catalog name passing dc of
                        (cluster, es) \<Rightarrow> (clusters @ [cluster], effs @ es)))
              order ([], []))"

subsection \<open>\<^verbatim>\<open>watchService\<close>: the watcher of one datacenter\<close>

text \<open>
  The variables of the loop: the cursor \<^verbatim>\<open>lastIndex\<close> (a \<^verbatim>\<open>uint64\<close>),
  \<^verbatim>\<open>oldCheckers\<close> and \<^verbatim>\<open>lastConfig\<close>. All three start at their zero values.
\<close>

record watchState =
  lastIndex :: "64 word"
  oldCheckers :: "HealthCheck list"
  lastConfig :: "Cluster list"

definition watchInit :: watchState where
  "watchInit = \<lparr>lastIndex = 0, oldCheckers = [], lastConfig = []\<rparr>"

text \<open>
  What the registry answers during one iteration: the result of the blocking health
  query (an error, or the service entries and \<^verbatim>\<open>meta.LastIndex\<close>), the catalog
  as it stands during the iteration, and the order in which the runtime ranges over the
  map of \<^verbatim>\<open>servicesConfig\<close>.
\<close>

datatype fetch = FetchError | FetchOk "ServiceEntry list" "64 word"

record watchInput =
  in_fetch :: fetch
  in_catalog :: "string \<Rightarrow> string \<Rightarrow> CatalogService list option"
  in_order :: "string list"

text \<open>
  One iteration of the loop of \<^verbatim>\<open>watchService\<close>: the state after it and its
  effects. \<^verbatim>\<open>passingServices\<close> is a function of the package whose source is not
  part of the files at hand; it is the parameter \<open>passingServices\<close>. The list that is
  sent and the list that is kept in \<^verbatim>\<open>lastConfig\<close> are the same pointers, so both
  are \<^verbatim>\<open>newConfig\<close> as \<^verbatim>\<open>checkClusterChanged\<close> left it. The previous
  list, which the comparison may have sorted as well, is dropped by the loop.
\<close>

definition watchService_body ::
  "(Endpoint list \<Rightarrow> Endpoint list) \<Rightarrow>
   (HealthCheck list \<Rightarrow> string list \<Rightarrow> HealthCheck list) \<Rightarrow> (Cluster \<Rightarrow> Cluster) \<Rightarrow>
   string list \<Rightarrow> string \<Rightarrow> watchState \<Rightarrow> watchInput \<Rightarrow> watchState \<times> effect list" where
  "watchService_body srt passingServices addEnvTag status dc st inp =
     (case in_fetch inp of
        FetchError \<Rightarrow> (st, [Sleep])
      | FetchOk services idx \<Rightarrow>
          (let checks = concat (map Checks services);
               st = st\<lparr>lastIndex := idx\<rparr>;
               passCheckers = passingServices checks status
           in if checkCheckersEqual (oldCheckers st) passCheckers then (st, [])
              else (let st = st\<lparr>oldCheckers := passCheckers\<rparr>
                    in case servicesConfig addEnvTag (in_catalog inp) (in_order inp) passCheckers dc of
                         (newConfig, effs) \<Rightarrow>
                           (case checkClusterChanged srt newConfig (lastConfig st) of
                              (changed, newConfig, lastc) \<Rightarrow>
                                (st\<lparr>lastConfig := newConfig\<rparr>,
                                 effs @ (if changed then [Send newConfig] else []))))))"

text \<open>The loop, run over the answers of the registry to its successive iterations.\<close>

fun watchService_run ::
  "(Endpoint list \<Rightarrow> Endpoint list) \<Rightarrow>
   (HealthCheck list \<Rightarrow> string list \<Rightarrow> HealthCheck list) \<Rightarrow> (Cluster \<Rightarrow> Cluster) \<Rightarrow>
   string list \<Rightarrow> string \<Rightarrow> watchState \<Rightarrow> watchInput list \<Rightarrow> watchState \<times> effect list" where
  "watchService_run srt passingServices addEnvTag status dc st [] = (st, [])"
| "watchService_run srt passingServices addEnvTag status dc st (inp # inps) =
     (case watchService_body srt passingServices addEnvTag status dc st inp of
        (st', effs) \<Rightarrow>
          (case watchService_run srt passingServices addEnvTag status dc st' inps of
             (st'', effs') \<Rightarrow> (st'', effs @ effs')))"

text \<open>
  Modelled from the spec: \<^verbatim>\<open>passingServices\<close>, whose source is missing. The spec
  says that the health checks are filtered to those whose status is in the accepted set.
  It is used where a concrete instance of the parameter \<open>passingServices\<close> is needed.
\<close>

definition passingServices :: "HealthCheck list \<Rightarrow> string list \<Rightarrow> HealthCheck list" where
  "passingServices checks status = filter (\<lambda>c. Status c \<in> set status) checks"

subsection \<open>\<^verbatim>\<open>watchServices\<close>: the aggregator\<close>

text \<open>
  The state of the aggregator's loop: for every datacenter whether its channel is still
  among the cases of \<^verbatim>\<open>reflect.Select\<close> (\<open>cases\<close>), the slots
  \<^verbatim>\<open>lastConfig\<close> (\<open>slots\<close>), and \<^verbatim>\<open>lastResult\<close>. There is one channel and one
  slot per datacenter, in the order of the datacenter list. A slot holds the list as it
  was received; the clusters in it are shared with the watcher that sent them, whose
  next comparison may sort their endpoints in place, which the state of the aggregator
  does not follow. The merged cluster is built in a slice of its own, so sorting it
  leaves the slots as they are.
\<close>

record aggState =
  cases :: "bool list"
  slots :: "Cluster list list"
  lastResult :: "Cluster list"

definition aggInit :: "nat \<Rightarrow> aggState" where
  "aggInit n = \<lparr>cases = replicate n True, slots = replicate n [], lastResult = []\<rparr>"

text \<open>
  What \<^verbatim>\<open>reflect.Select\<close> returns: the index of the chosen case, and either the
  value received on its channel or the notice that the channel is closed. It chooses
  among the cases whose channel has not been replaced by the zero value (\<open>selectable\<close>).
\<close>

datatype selected = Recv nat "Cluster list" | Closed nat

fun chosen :: "selected \<Rightarrow> nat" where
  "chosen (Recv i v) = i"
| "chosen (Closed i) = i"

definition selectable :: "aggState \<Rightarrow> selected \<Rightarrow> bool" where
  "selectable st ev \<longleftrightarrow> chosen ev < length (cases st) \<and> cases st ! chosen ev"

text \<open>
  The merged cluster: \<^verbatim>\<open>Endpoints\<close> starts as nil, and the loop over the slots
  appends the endpoints of the first cluster of every slot that is not empty and whose
  first cluster has endpoints.
\<close>

definition mergeLoop :: "Cluster list list \<Rightarrow> Endpoint slice \<Rightarrow> Endpoint slice" where
  "mergeLoop lc eps =
     fold (\<lambda>slot eps.
             case slot of
               [] \<Rightarrow> eps
             | c # cs \<Rightarrow> if len (Endpoints c) \<noteq> 0 then append_slice eps (elems (Endpoints c))
                         else eps) lc eps"

definition mergeResult :: "string \<Rightarrow> Cluster list list \<Rightarrow> Cluster list" where
  "mergeResult service lc = [\<lparr>Name = service, Endpoints = mergeLoop lc NilSlice\<rparr>]"

text \<open>
  One iteration of the loop of \<^verbatim>\<open>watchServices\<close>. A closed channel is taken out
  of the cases and the loop continues; a received value is stored in its slot, the merged
  cluster is built, compared with \<^verbatim>\<open>lastResult\<close>, sent when it changed, and kept.
\<close>

definition watchServices_body ::
  "(Endpoint list \<Rightarrow> Endpoint list) \<Rightarrow> string \<Rightarrow> aggState \<Rightarrow> selected \<Rightarrow>
   aggState \<times> effect list" where
  "watchServices_body srt service st ev =
     (case ev of
        Closed i \<Rightarrow> (st\<lparr>cases := (cases st)[i := False]\<rparr>, [])
      | Recv i v \<Rightarrow>
          (let st = st\<lparr>slots := (slots st)[i := v]\<rparr>;
               result = mergeResult service (slots st)
           in case checkClusterChanged srt result (lastResult st) of
                (changed, result, lastr) \<Rightarrow>
                  (st\<lparr>lastResult := result\<rparr>, if changed then [Send result] else [])))"

text \<open>
  The loop, run over the successive results of \<^verbatim>\<open>reflect.Select\<close>. A result that
  \<^verbatim>\<open>reflect.Select\<close> cannot return in the state reached is no run of the program:
  the value is \<open>None\<close>.
\<close>

fun watchServices_run ::
  "(Endpoint list \<Rightarrow> Endpoint list) \<Rightarrow> string \<Rightarrow> aggState \<Rightarrow> selected list \<Rightarrow>
   (aggState \<times> effect list) option" where
  "watchServices_run srt service st [] = Some (st, [])"
| "watchServices_run srt service st (ev # evs) =
     (if selectable st ev then
        (case watchServices_body srt service st ev of
           (st', effs) \<Rightarrow>
             (case watchServices_run srt service st' evs of
                None \<Rightarrow> None
              | Some (st'', effs') \<Rightarrow> Some (st'', effs @ effs')))
      else None)"

subsection \<open>Notions used in the statements\<close>

text \<open>The cluster lists that a list of effects sends, and its catalog lookups.\<close>

fun sent :: "effect list \<Rightarrow> Cluster list list" where
  "sent [] = []"
| "sent (Send cs # es) = cs # sent es"
| "sent (e # es) = sent es"

fun catalogCalls :: "effect list \<Rightarrow> (string \<times> string) list" where
  "catalogCalls [] = []"
| "catalogCalls (CallCatalog name dc # es) = (name, dc) # catalogCalls es"
| "catalogCalls (e # es) = catalogCalls es"

text \<open>
  A cluster after its endpoints were sorted in place, two clusters whose sorted endpoint
  slices are deeply equal, a cluster whose endpoints are in non-decreasing order of
  \<^verbatim>\<open>ID\<close>, and the position of the first pair of two lists that differs (the length
  of the shorter list when none does).
\<close>

definition sortCluster :: "(Endpoint list \<Rightarrow> Endpoint list) \<Rightarrow> Cluster \<Rightarrow> Cluster" where
  "sortCluster srt c = c\<lparr>Endpoints := sort_Sort srt (Endpoints c)\<rparr>"

definition sameSorted :: "(Endpoint list \<Rightarrow> Endpoint list) \<Rightarrow> Cluster \<Rightarrow> Cluster \<Rightarrow> bool" where
  "sameSorted srt c1 c2 \<longleftrightarrow> sort_Sort srt (Endpoints c1) = sort_Sort srt (Endpoints c2)"

definition sortedByID :: "Cluster \<Rightarrow> bool" where
  "sortedByID c \<longleftrightarrow> sorted (map ID (elems (Endpoints c)))"

definition firstDiff ::
  "(Endpoint list \<Rightarrow> Endpoint list) \<Rightarrow> Cluster list \<Rightarrow> Cluster list \<Rightarrow> nat" where
  "firstDiff srt new lst = length (takeWhile (\<lambda>(c1, c2). sameSorted srt c1 c2) (zip new lst))"

text \<open>
  Two clusters that hold the same endpoints in any order: the endpoint slices are
  permutations of each other, and both are nil or neither is.
\<close>

definition permutedEndpoints :: "Cluster \<Rightarrow> Cluster \<Rightarrow> bool" where
  "permutedEndpoints c1 c2 \<longleftrightarrow>
     mset (elems (Endpoints c1)) = mset (elems (Endpoints c2)) \<and>
     (Endpoints c1 = NilSlice \<longleftrightarrow> Endpoints c2 = NilSlice)"

text \<open>
  The equality of passing sets in the words of the specification: every record of each
  list has a match in the other one, where a match is the equality of the six string
  fields and an equality of the tags. Two equalities of tags are considered: equality
  element by element, in order (\<open>tagsEqual\<close>), and that together with both slices being
  nil or neither (\<open>tagsDeepEqual\<close>).
\<close>

definition tagsEqual :: "string slice \<Rightarrow> string slice \<Rightarrow> bool" where
  "tagsEqual s t \<longleftrightarrow> elems s = elems t"

definition tagsDeepEqual :: "string slice \<Rightarrow> string slice \<Rightarrow> bool" where
  "tagsDeepEqual s t \<longleftrightarrow> elems s = elems t \<and> (s = NilSlice \<longleftrightarrow> t = NilSlice)"

definition recordsMatch ::
  "(string slice \<Rightarrow> string slice \<Rightarrow> bool) \<Rightarrow> HealthCheck \<Rightarrow> HealthCheck \<Rightarrow> bool" where
  "recordsMatch tagsEq a b \<longleftrightarrow>
     Node a = Node b \<and> CheckID a = CheckID b \<and> HealthCheck.Name a = HealthCheck.Name b \<and>
     Status a = Status b \<and> HealthCheck.ServiceID a = HealthCheck.ServiceID b \<and>
     ServiceName a = ServiceName b \<and>
     tagsEq (HealthCheck.ServiceTags a) (HealthCheck.ServiceTags b)"

definition containedIn ::
  "(HealthCheck \<Rightarrow> HealthCheck \<Rightarrow> bool) \<Rightarrow> HealthCheck list \<Rightarrow> HealthCheck list \<Rightarrow> bool" where
  "containedIn match xs ys \<longleftrightarrow> (\<forall>x \<in> set xs. \<exists>y \<in> set ys. match x y)"

definition bidirectional ::
  "(HealthCheck \<Rightarrow> HealthCheck \<Rightarrow> bool) \<Rightarrow> HealthCheck list \<Rightarrow> HealthCheck list \<Rightarrow> bool" where
  "bidirectional match old new \<longleftrightarrow> containedIn match old new \<and> containedIn match new old"

text \<open>
  The indexes that the successful fetches of a run return, and the values of the cursor
  \<^verbatim>\<open>lastIndex\<close> after each successful fetch of a run.
\<close>

fun returnedIndexes :: "watchInput list \<Rightarrow> 64 word list" where
  "returnedIndexes [] = []"
| "returnedIndexes (inp # inps) =
     (case in_fetch inp of
        FetchError \<Rightarrow> returnedIndexes inps
      | FetchOk services idx \<Rightarrow> idx # returnedIndexes inps)"

fun cursorTrace ::
  "(Endpoint list \<Rightarrow> Endpoint list) \<Rightarrow>
   (HealthCheck list \<Rightarrow> string list \<Rightarrow> HealthCheck list) \<Rightarrow> (Cluster \<Rightarrow> Cluster) \<Rightarrow>
   string list \<Rightarrow> string \<Rightarrow> watchState \<Rightarrow> watchInput list \<Rightarrow> 64 word list" where
  "cursorTrace srt ps addEnvTag status dc st [] = []"
| "cursorTrace srt ps addEnvTag status dc st (inp # inps) =
     (case watchService_body srt ps addEnvTag status dc st inp of
        (st', effs) \<Rightarrow>
          (case in_fetch inp of FetchError \<Rightarrow> [] | FetchOk services idx \<Rightarrow> [lastIndex st']) @
          cursorTrace srt ps addEnvTag status dc st' inps)"

text \<open>
  The endpoints that a slot of the aggregator holds (those of its first cluster), and
  the slots that hold any.
\<close>

definition slotEndpoints :: "Cluster list \<Rightarrow> Endpoint list" where
  "slotEndpoints slot = (case slot of [] \<Rightarrow> [] | c # cs \<Rightarrow> elems (Endpoints c))"

definition contributes :: "Cluster list \<Rightarrow> bool" where
  "contributes slot \<longleftrightarrow> slot \<noteq> [] \<and> slotEndpoints slot \<noteq> []"

text \<open>The state of the aggregator after the channel \<open>i\<close> was taken out of the cases.\<close>

definition closeCase :: "nat \<Rightarrow> aggState \<Rightarrow> aggState" where
  "closeCase i st = st\<lparr>cases := (cases st)[i := False]\<rparr>"

subsection \<open>Example data\<close>

text \<open>Concrete health checks, catalog instances and catalogs, for the instances below.\<close>

definition exCheck :: "string \<Rightarrow> string \<Rightarrow> HealthCheck" where
  "exCheck name sid =
     \<lparr>Node = ''node1'', CheckID = ''service:'' @ sid, HealthCheck.Name = ''Service check'',
      Status = ''passing'', HealthCheck.ServiceID = sid, ServiceName = name,
      HealthCheck.ServiceTags = NilSlice\<rparr>"

definition exInstance :: "string \<Rightarrow> string \<Rightarrow> CatalogService" where
  "exInstance sid dc =
     \<lparr>ServiceID = sid, ServiceAddress = [], Address = ''10.0.0.1'', ServicePort = 8080,
      ServiceTags = NilSlice, Datacenter = dc\<rparr>"

text \<open>A catalog that knows one instance of every service, with the id \<open>name1\<close>.\<close>

definition exCatalog :: "string \<Rightarrow> string \<Rightarrow> CatalogService list option" where
  "exCatalog name dc = Some [exInstance (name @ ''1'') dc]"

definition exEndpoint :: "string \<Rightarrow> string \<Rightarrow> Endpoint" where
  "exEndpoint sid addr = \<lparr>ID = sid, Addr = addr, Port = 8080, Tags = Slice [''dc=us'']\<rparr>"

definition exCluster :: "Endpoint list \<Rightarrow> Cluster" where
  "exCluster es = \<lparr>Name = ''orders'', Endpoints = Slice es\<rparr>"

text \<open>
  The answer of the registry to one iteration: one passing check of one instance of the
  service, the index \<open>idx\<close>, and the catalog above.
\<close>

definition exInput :: "string \<Rightarrow> 64 word \<Rightarrow> watchInput" where
  "exInput name idx =
     \<lparr>in_fetch = FetchOk [\<lparr>Checks = [exCheck name (name @ ''1'')]\<rparr>] idx,
      in_catalog = exCatalog, in_order = [name]\<rparr>"

text \<open>
  A catalog that knows two instances of every service, listed as \<open>name2\<close>, \<open>name1\<close>,
  and an answer of the registry with a passing check of each.
\<close>

definition exCatalog2 :: "string \<Rightarrow> string \<Rightarrow> CatalogService list option" where
  "exCatalog2 name dc = Some [exInstance (name @ ''2'') dc, exInstance (name @ ''1'') dc]"

definition exInput2 :: "string \<Rightarrow> 64 word \<Rightarrow> watchInput" where
  "exInput2 name idx =
     \<lparr>in_fetch = FetchOk [\<lparr>Checks = [exCheck name (name @ ''1'')]\<rparr>,
                          \<lparr>Checks = [exCheck name (name @ ''2'')]\<rparr>] idx,
      in_catalog = exCatalog2, in_order = [name]\<rparr>"

text \<open>
  A health check like \<open>exCheck\<close> with the given \<^verbatim>\<open>ServiceTags\<close>, and the answer of
  the registry that carries it.
\<close>

definition exCheckTags :: "string \<Rightarrow> string \<Rightarrow> string slice \<Rightarrow> HealthCheck" where
  "exCheckTags name sid tags = (exCheck name sid)\<lparr>HealthCheck.ServiceTags := tags\<rparr>"

definition exInputTags :: "string \<Rightarrow> string slice \<Rightarrow> 64 word \<Rightarrow> watchInput" where
  "exInputTags name tags idx =
     \<lparr>in_fetch = FetchOk [\<lparr>Checks = [exCheckTags name (name @ ''1'') tags]\<rparr>] idx,
      in_catalog = exCatalog, in_order = [name]\<rparr>"

text \<open>
  An answer of the registry whose only check is critical, so that no check passes and the
  map of \<^verbatim>\<open>servicesConfig\<close> would be empty, and a failed fetch.
\<close>

definition exInputNone :: "64 word \<Rightarrow> watchInput" where
  "exInputNone idx =
     \<lparr>in_fetch = FetchOk [\<lparr>Checks = [(exCheck ''orders'' ''orders1'')\<lparr>Status := ''critical''\<rparr>]\<rparr>] idx,
      in_catalog = exCatalog, in_order = []\<rparr>"

definition exInputError :: watchInput where
  "exInputError = \<lparr>in_fetch = FetchError, in_catalog = exCatalog, in_order = []\<rparr>"

text \<open>A catalog whose lookups all fail, and one whose lookups fail for the service \<open>a\<close>.\<close>

definition exCatalogDown :: "string \<Rightarrow> string \<Rightarrow> CatalogService list option" where
  "exCatalogDown name dc = None"

definition exCatalogPart :: "string \<Rightarrow> string \<Rightarrow> CatalogService list option" where
  "exCatalogPart name dc = (if name = ''a'' then None else exCatalog name dc)"

section \<open>Properties\<close>

subsection \<open>Slices\<close>

lemma elems_append_slice: "elems (append_slice s xs) = elems s @ xs"
  by (cases xs) simp_all

lemma append_slice_Slice: "append_slice (Slice xs) ys = Slice (xs @ ys)"
  by (cases ys) simp_all

lemma slice_eqI: "elems a = elems b \<Longrightarrow> (a = NilSlice \<longleftrightarrow> b = NilSlice) \<Longrightarrow> a = b"
  by (cases a; cases b) simp_all

subsection \<open>Sorting and comparing\<close>

lemma sort_Sort_simps [simp]:
  "sort_Sort srt NilSlice = NilSlice"
  "sort_Sort srt (Slice xs) = Slice (srt xs)"
  by (simp_all add: sort_Sort_def)

lemma sorting_insertionSort: "sorting insertionSort"
  by (simp add: sorting_def insertionSort_def)

lemma sorting_single: "sorting srt \<Longrightarrow> srt [x] = [x]"
  by (metis sorting_def mset_single_iff_right)

lemma sorting_Nil: "sorting srt \<Longrightarrow> srt [] = []"
  by (metis sorting_def mset_zero_iff)

lemma mset_sort_Sort: "sorting srt \<Longrightarrow> mset (elems (sort_Sort srt s)) = mset (elems s)"
  by (cases s) (simp_all add: sorting_def)

lemma sorted_sort_Sort: "sorting srt \<Longrightarrow> sorted (map ID (elems (sort_Sort srt s)))"
  by (cases s) (simp_all add: sorting_def)

lemma sort_Sort_Nil_iff: "sort_Sort srt s = NilSlice \<longleftrightarrow> s = NilSlice"
  by (cases s) simp_all

lemma checkCluster_eq:
  "checkCluster srt c1 c2 = (\<not> sameSorted srt c1 c2, sortCluster srt c1, sortCluster srt c2)"
  by (simp add: checkCluster_def sameSorted_def sortCluster_def Let_def)

lemma checkLoop_Cons:
  "checkLoop srt ((c1, c2) # ps) =
     (if sameSorted srt c1 c2
      then (fst (checkLoop srt ps), (sortCluster srt c1, sortCluster srt c2) # snd (checkLoop srt ps))
      else (True, (sortCluster srt c1, sortCluster srt c2) # ps))"
  by (simp add: checkCluster_eq split: prod.splits)

declare checkLoop.simps(2) [simp del]

lemma fst_checkLoop:
  "fst (checkLoop srt ps) \<longleftrightarrow> \<not> list_all (\<lambda>(c1, c2). sameSorted srt c1 c2) ps"
proof (induction ps)
  case Nil
  show ?case by simp
next
  case (Cons p ps)
  obtain c1 c2 where p: "p = (c1, c2)" by (cases p)
  show ?case using Cons.IH by (simp add: p checkLoop_Cons)
qed

lemma snd_checkLoop:
  "snd (checkLoop srt ps) =
     map (\<lambda>(c1, c2). (sortCluster srt c1, sortCluster srt c2))
         (take (Suc (length (takeWhile (\<lambda>(c1, c2). sameSorted srt c1 c2) ps))) ps) @
     drop (Suc (length (takeWhile (\<lambda>(c1, c2). sameSorted srt c1 c2) ps))) ps"
proof (induction ps)
  case Nil
  show ?case by simp
next
  case (Cons p ps)
  obtain c1 c2 where p: "p = (c1, c2)" by (cases p)
  show ?case using Cons.IH by (simp add: p checkLoop_Cons)
qed

lemma length_snd_checkLoop: "length (snd (checkLoop srt ps)) = length ps"
  by (simp add: snd_checkLoop)

lemma checkClusterChanged_eq:
  "checkClusterChanged srt new lst =
     (if length new \<noteq> length lst then (True, new, lst)
      else (fst (checkLoop srt (zip new lst)),
            map fst (snd (checkLoop srt (zip new lst))), map snd (snd (checkLoop srt (zip new lst)))))"
  by (simp add: checkClusterChanged_def split: prod.splits)

lemma fst_checkClusterChanged:
  "fst (checkClusterChanged srt new lst) \<longleftrightarrow>
     \<not> (length new = length lst \<and> list_all2 (sameSorted srt) new lst)"
  by (simp add: checkClusterChanged_eq fst_checkLoop list_all2_iff list_all_iff)

lemma snd_checkClusterChanged_length:
  "length new \<noteq> length lst \<Longrightarrow> snd (checkClusterChanged srt new lst) = (new, lst)"
  by (simp add: checkClusterChanged_eq)

lemma map_fst_pairs:
  "length xs = length ys \<Longrightarrow>
     map fst (map (\<lambda>(a, b). (f a, g b)) (take n (zip xs ys)) @ drop n (zip xs ys)) =
     map f (take n xs) @ drop n xs"
  by (induction xs ys arbitrary: n rule: list_induct2) (auto simp: take_Cons drop_Cons split: nat.splits)

lemma map_snd_pairs:
  "length xs = length ys \<Longrightarrow>
     map snd (map (\<lambda>(a, b). (f a, g b)) (take n (zip xs ys)) @ drop n (zip xs ys)) =
     map g (take n ys) @ drop n ys"
  by (induction xs ys arbitrary: n rule: list_induct2) (auto simp: take_Cons drop_Cons split: nat.splits)

lemma new_checkClusterChanged:
  assumes "length new = length lst"
  shows "fst (snd (checkClusterChanged srt new lst)) =
           map (sortCluster srt) (take (Suc (firstDiff srt new lst)) new) @ drop (Suc (firstDiff srt new lst)) new"
    and "snd (snd (checkClusterChanged srt new lst)) =
           map (sortCluster srt) (take (Suc (firstDiff srt new lst)) lst) @ drop (Suc (firstDiff srt new lst)) lst"
  using assms
  by (simp_all add: checkClusterChanged_eq snd_checkLoop firstDiff_def map_fst_pairs map_snd_pairs
        del: map_append take_Suc drop_Suc)

lemma sorted_by_distinct_key_unique:
  assumes m: "mset xs = mset ys"
    and d: "distinct (map f xs)"
    and sx: "sorted (map f xs)" and sy: "sorted (map f ys)"
  shows "xs = ys"
proof -
  from m have mm: "mset (map f xs) = mset (map f ys)" by simp
  with d have dy: "distinct (map f ys)" by (metis mset_eq_imp_distinct_iff)
  from mm have "set (map f xs) = set (map f ys)" by (rule mset_eq_setD)
  with sx d sy dy have eq: "map f xs = map f ys" by (rule sorted_distinct_set_unique)
  from m have s: "set xs = set ys" by (rule mset_eq_setD)
  from d have "inj_on f (set xs)" by (simp add: distinct_map)
  with s have "inj_on f (set xs \<union> set ys)" by simp
  with eq show ?thesis by (simp add: inj_on_map_eq_map)
qed

lemma sameSorted_permuted:
  assumes s: "sorting srt"
    and p: "permutedEndpoints c1 c2" and d: "distinct (map ID (elems (Endpoints c1)))"
  shows "sameSorted srt c1 c2"
proof -
  let ?s1 = "sort_Sort srt (Endpoints c1)" and ?s2 = "sort_Sort srt (Endpoints c2)"
  from p have m: "mset (elems ?s1) = mset (elems ?s2)"
    by (simp add: permutedEndpoints_def mset_sort_Sort [OF s])
  have "mset (map ID (elems ?s1)) = mset (map ID (elems (Endpoints c1)))"
    by (simp add: mset_sort_Sort [OF s])
  with d have d1: "distinct (map ID (elems ?s1))" by (metis mset_eq_imp_distinct_iff)
  from m d1 have "elems ?s1 = elems ?s2"
    by (rule sorted_by_distinct_key_unique) (rule sorted_sort_Sort [OF s])+
  moreover from p have "?s1 = NilSlice \<longleftrightarrow> ?s2 = NilSlice"
    by (simp add: permutedEndpoints_def sort_Sort_Nil_iff)
  ultimately show ?thesis unfolding sameSorted_def by (rule slice_eqI)
qed

lemma sameSorted_mset:
  "sorting srt \<Longrightarrow> sameSorted srt c1 c2 \<Longrightarrow>
     mset (elems (Endpoints c1)) = mset (elems (Endpoints c2))"
  by (metis sameSorted_def mset_sort_Sort)

lemma mset_update_neq:
  assumes "k < length xs" and "e \<noteq> xs ! k"
  shows "mset (xs[k := e]) \<noteq> mset xs"
proof
  assume eq: "mset (xs[k := e]) = mset xs"
  from assms(1) have "mset (xs[k := e]) = add_mset e (mset xs - {#xs ! k#})"
    by (rule mset_update)
  then have "count (mset (xs[k := e])) e = Suc (count (mset xs) e)"
    using assms(2) by simp
  with eq show False by simp
qed

lemma unchanged_if_permuted:
  assumes s: "sorting srt"
    and p: "list_all2 (\<lambda>c1 c2. permutedEndpoints c1 c2 \<and>
              distinct (map ID (elems (Endpoints c1)))) new lst"
  shows "\<not> fst (checkClusterChanged srt new lst)"
proof -
  from p have "list_all2 (sameSorted srt) new lst"
    by (rule list_all2_mono) (simp add: sameSorted_permuted [OF s])
  moreover from p have "length new = length lst" by (rule list_all2_lengthD)
  ultimately show ?thesis by (simp add: fst_checkClusterChanged)
qed

lemma changed_if_endpoint_differs:
  assumes s: "sorting srt"
    and i: "i < length new" "i < length lst"
    and k: "k < length (elems (Endpoints (lst ! i)))"
    and e: "e \<noteq> elems (Endpoints (lst ! i)) ! k"
    and m: "mset (elems (Endpoints (new ! i))) = mset ((elems (Endpoints (lst ! i)))[k := e])"
  shows "fst (checkClusterChanged srt new lst)"
proof (rule ccontr)
  assume "\<not> fst (checkClusterChanged srt new lst)"
  then have "list_all2 (sameSorted srt) new lst" by (simp add: fst_checkClusterChanged)
  with i have "sameSorted srt (new ! i) (lst ! i)" by (simp add: list_all2_nthD)
  with s have "mset (elems (Endpoints (new ! i))) = mset (elems (Endpoints (lst ! i)))"
    by (rule sameSorted_mset)
  with m mset_update_neq [OF k e] show False by simp
qed

subsection \<open>Effects of the loop bodies\<close>

lemma mergeLoop_simps:
  "mergeLoop [] eps = eps"
  "mergeLoop ([] # lc) eps = mergeLoop lc eps"
  "mergeLoop ((c # cs) # lc) eps =
     mergeLoop lc (if elems (Endpoints c) \<noteq> [] then append_slice eps (elems (Endpoints c))
                   else eps)"
  by (simp_all add: mergeLoop_def len_def)

lemma endpointLoop_Slice:
  "endpointLoop passing svcs (Slice es) =
     Slice (es @ map endpoint (filter (\<lambda>svc. ServiceID svc \<in> passing) svcs))"
proof (induction svcs arbitrary: es)
  case Nil
  show ?case by (simp add: endpointLoop_def)
next
  case (Cons svc svcs)
  have step: "endpointLoop passing (svc # svcs) (Slice es) =
      endpointLoop passing svcs
        (if ServiceID svc \<notin> passing then Slice es else Slice (es @ [endpoint svc]))"
    by (simp add: endpointLoop_def)
  show ?case by (simp add: step Cons.IH)
qed

lemma serviceConfig_cases:
  "serviceConfig addEnvTag catalog name passing dc =
     (if name = [] \<or> passing = {} then (\<lparr>Name = name, Endpoints = Slice []\<rparr>, [])
      else case catalog name dc of
             None \<Rightarrow> (\<lparr>Name = name, Endpoints = Slice []\<rparr>, [CallCatalog name dc])
           | Some svcs \<Rightarrow>
               (addEnvTag \<lparr>Name = name, Endpoints =
                   Slice (map endpoint (filter (\<lambda>svc. ServiceID svc \<in> passing) svcs))\<rparr>,
                [CallCatalog name dc, CallAddEnvTag name]))"
  by (simp add: serviceConfig_def Let_def endpointLoop_Slice split: option.splits)

lemma fst_run_Cons:
  "fst (watchService_run srt ps addEnvTag status dc st (inp # inps)) =
     fst (watchService_run srt ps addEnvTag status dc
            (fst (watchService_body srt ps addEnvTag status dc st inp)) inps)"
  by (simp split: prod.splits)

lemma snd_run_Cons:
  "snd (watchService_run srt ps addEnvTag status dc st (inp # inps)) =
     snd (watchService_body srt ps addEnvTag status dc st inp) @
     snd (watchService_run srt ps addEnvTag status dc
            (fst (watchService_body srt ps addEnvTag status dc st inp)) inps)"
  by (simp split: prod.splits)

lemma groupChecks_ex:
  "groupChecks [exCheck ''a'' ''a1'', exCheck ''b'' ''b1''] =
     [''a'' \<mapsto> {''a1''}, ''b'' \<mapsto> {''b1''}]"
  by (simp add: groupChecks_def addCheck_def exCheck_def)

lemma sent_append: "sent (xs @ ys) = sent xs @ sent ys"
  by (induction xs rule: sent.induct) simp_all

lemma catalogCalls_append: "catalogCalls (xs @ ys) = catalogCalls xs @ catalogCalls ys"
  by (induction xs rule: catalogCalls.induct) simp_all

lemma sent_serviceConfig: "sent (snd (serviceConfig addEnvTag catalog name passing dc)) = []"
  by (simp add: serviceConfig_def Let_def split: option.splits)

lemma servicesConfig_fold:
  "fold (\<lambda>name (clusters, effs).
           case m name of
             None \<Rightarrow> (clusters, effs)
           | Some passing \<Rightarrow>
               (case serviceConfig addEnvTag catalog name passing dc of
                  (cluster, es) \<Rightarrow> (clusters @ [cluster], effs @ es)))
        order (cs, effs) =
   (cs @ map (\<lambda>name. fst (serviceConfig addEnvTag catalog name (the (m name)) dc))
             (filter (\<lambda>name. m name \<noteq> None) order),
    effs @ concat (map (\<lambda>name. snd (serviceConfig addEnvTag catalog name (the (m name)) dc))
                       (filter (\<lambda>name. m name \<noteq> None) order)))"
  by (induction order arbitrary: cs effs) (auto split: option.splits prod.splits)

lemma servicesConfig_eq:
  "servicesConfig addEnvTag catalog order checks dc =
     (map (\<lambda>name. fst (serviceConfig addEnvTag catalog name (the (groupChecks checks name)) dc))
          (filter (\<lambda>name. groupChecks checks name \<noteq> None) order),
      concat (map (\<lambda>name. snd (serviceConfig addEnvTag catalog name (the (groupChecks checks name)) dc))
                  (filter (\<lambda>name. groupChecks checks name \<noteq> None) order)))"
  by (simp add: servicesConfig_def Let_def servicesConfig_fold)

lemma sent_concat: "sent (concat xss) = concat (map sent xss)"
  by (induction xss) (simp_all add: sent_append)

lemma sent_servicesConfig: "sent (snd (servicesConfig addEnvTag catalog order checks dc)) = []"
  by (simp add: servicesConfig_eq sent_concat comp_def sent_serviceConfig)

lemma watchService_body_ok:
  assumes "in_fetch inp = FetchOk services idx"
  shows "watchService_body srt ps addEnvTag status dc st inp =
     (if checkCheckersEqual (oldCheckers st) (ps (concat (map Checks services)) status)
      then (st\<lparr>lastIndex := idx\<rparr>, [])
      else (st\<lparr>lastIndex := idx, oldCheckers := ps (concat (map Checks services)) status,
               lastConfig := fst (snd (checkClusterChanged srt
                   (fst (servicesConfig addEnvTag (in_catalog inp) (in_order inp)
                           (ps (concat (map Checks services)) status) dc))
                   (lastConfig st)))\<rparr>,
            snd (servicesConfig addEnvTag (in_catalog inp) (in_order inp)
                   (ps (concat (map Checks services)) status) dc) @
            (if fst (checkClusterChanged srt
                   (fst (servicesConfig addEnvTag (in_catalog inp) (in_order inp)
                           (ps (concat (map Checks services)) status) dc))
                   (lastConfig st))
             then [Send (fst (snd (checkClusterChanged srt
                   (fst (servicesConfig addEnvTag (in_catalog inp) (in_order inp)
                           (ps (concat (map Checks services)) status) dc))
                   (lastConfig st))))]
             else [])))"
  using assms by (simp add: watchService_body_def Let_def split: prod.splits)

lemma watchService_body_error:
  "in_fetch inp = FetchError \<Longrightarrow> watchService_body srt ps addEnvTag status dc st inp = (st, [Sleep])"
  by (simp add: watchService_body_def)

lemma watchServices_body_Recv:
  "watchServices_body srt service st (Recv i v) =
     (st\<lparr>slots := (slots st)[i := v],
         lastResult := fst (snd (checkClusterChanged srt
                         (mergeResult service ((slots st)[i := v])) (lastResult st)))\<rparr>,
      if fst (checkClusterChanged srt (mergeResult service ((slots st)[i := v])) (lastResult st))
      then [Send (fst (snd (checkClusterChanged srt
                         (mergeResult service ((slots st)[i := v])) (lastResult st))))]
      else [])"
  by (simp add: watchServices_body_def Let_def split: prod.splits)

lemma watchServices_body_Closed:
  "watchServices_body srt service st (Closed i) = (st\<lparr>cases := (cases st)[i := False]\<rparr>, [])"
  by (simp add: watchServices_body_def)

lemma groupChecks_single: "groupChecks [c] = [ServiceName c \<mapsto> {HealthCheck.ServiceID c}]"
  by (simp add: groupChecks_def addCheck_def)

lemma watchService_first:
  "watchService_body srt passingServices (AddEnvTag env) [''passing''] ''us'' watchInit
     (exInput ''orders'' idx) =
   (\<lparr>lastIndex = idx, oldCheckers = [exCheck ''orders'' ''orders1''],
     lastConfig = [\<lparr>Name = ''orders'', Endpoints = Slice
        [\<lparr>ID = ''orders1'', Addr = ''10.0.0.1'', Port = 8080, Tags = Slice [''dc=us'', env]\<rparr>]\<rparr>]\<rparr>,
    [CallCatalog ''orders'' ''us'', CallAddEnvTag ''orders'',
     Send [\<lparr>Name = ''orders'', Endpoints = Slice
        [\<lparr>ID = ''orders1'', Addr = ''10.0.0.1'', Port = 8080, Tags = Slice [''dc=us'', env]\<rparr>]\<rparr>]])"
  by (simp add: watchService_body_def exInput_def watchInit_def passingServices_def
      checkCheckersEqual_def checkIn_def servicesConfig_def groupChecks_single Let_def
      serviceConfig_def exCatalog_def exInstance_def endpointLoop_def endpoint_def AddEnvTag_def
      checkClusterChanged_def)
    (simp add: exCheck_def)

lemma aggInit_simps:
  "aggInit 1 = \<lparr>cases = [True], slots = [[]], lastResult = []\<rparr>"
  "aggInit 2 = \<lparr>cases = [True, True], slots = [[], []], lastResult = []\<rparr>"
  "aggInit 3 = \<lparr>cases = [True, True, True], slots = [[], [], []], lastResult = []\<rparr>"
  by (simp_all add: aggInit_def numeral_2_eq_2 numeral_3_eq_3)

lemma watchService_first2:
  "watchService_body srt passingServices (AddEnvTag env) [''passing''] ''us'' watchInit
     (exInput2 ''orders'' idx) =
   (\<lparr>lastIndex = idx,
     oldCheckers = [exCheck ''orders'' ''orders1'', exCheck ''orders'' ''orders2''],
     lastConfig = [\<lparr>Name = ''orders'', Endpoints = Slice
        [\<lparr>ID = ''orders2'', Addr = ''10.0.0.1'', Port = 8080, Tags = Slice [''dc=us'', env]\<rparr>,
         \<lparr>ID = ''orders1'', Addr = ''10.0.0.1'', Port = 8080, Tags = Slice [''dc=us'', env]\<rparr>]\<rparr>]\<rparr>,
    [CallCatalog ''orders'' ''us'', CallAddEnvTag ''orders'',
     Send [\<lparr>Name = ''orders'', Endpoints = Slice
        [\<lparr>ID = ''orders2'', Addr = ''10.0.0.1'', Port = 8080, Tags = Slice [''dc=us'', env]\<rparr>,
         \<lparr>ID = ''orders1'', Addr = ''10.0.0.1'', Port = 8080, Tags = Slice [''dc=us'', env]\<rparr>]\<rparr>]])"
proof -
  have g: "groupChecks [exCheck ''orders'' ''orders1'', exCheck ''orders'' ''orders2''] =
             [''orders'' \<mapsto> {''orders2'', ''orders1''}]"
    by (simp add: groupChecks_def addCheck_def exCheck_def)
  have p: "passingServices [exCheck ''orders'' ''orders1'', exCheck ''orders'' ''orders2'']
             [''passing''] = [exCheck ''orders'' ''orders1'', exCheck ''orders'' ''orders2'']"
    by (simp add: passingServices_def exCheck_def)
  have n: "\<not> checkCheckersEqual [] [exCheck ''orders'' ''orders1'', exCheck ''orders'' ''orders2'']"
    by (simp add: checkCheckersEqual_def checkIn_def)
  have s: "servicesConfig (AddEnvTag env) exCatalog2 [''orders'']
             [exCheck ''orders'' ''orders1'', exCheck ''orders'' ''orders2''] ''us'' =
           ([\<lparr>Name = ''orders'', Endpoints = Slice
        [\<lparr>ID = ''orders2'', Addr = ''10.0.0.1'', Port = 8080, Tags = Slice [''dc=us'', env]\<rparr>,
         \<lparr>ID = ''orders1'', Addr = ''10.0.0.1'', Port = 8080, Tags = Slice [''dc=us'', env]\<rparr>]\<rparr>],
            [CallCatalog ''orders'' ''us'', CallAddEnvTag ''orders''])"
    by (simp add: servicesConfig_def g serviceConfig_def exCatalog2_def exInstance_def
          endpointLoop_def endpoint_def AddEnvTag_def)
  show ?thesis
    by (simp add: watchService_body_def exInput2_def watchInit_def p n s checkClusterChanged_eq)
qed

subsection \<open>The merged cluster of the aggregator\<close>



lemma concat_contributes:
  "concat (map slotEndpoints (filter contributes lc)) = concat (map slotEndpoints lc)"
  by (induction lc) (auto simp: contributes_def slotEndpoints_def)




subsection \<open>Suppression by the comparison of cluster lists\<close>

text \<open>
  Claim C2, amended. \<^verbatim>\<open>checkClusterChanged\<close> reports no change exactly when both
  lists have the same length and the endpoint slices of every positional pair are deeply
  equal after sorting by \<^verbatim>\<open>ID\<close>. An iteration of the watcher that reaches the
  comparison, and every iteration of the aggregator that received a value, sends the new
  list exactly when a change is reported and keeps it as the last list either way.
  Whatever sorting routine \<^verbatim>\<open>sort.Sort\<close> is: a list that holds the same endpoints
  as the last one in any order reports no change when the \<^verbatim>\<open>ID\<close>s within each
  cluster are distinct, and a list in which one endpoint of the last list is replaced by
  a different one (in \<^verbatim>\<open>ID\<close>, \<^verbatim>\<open>Addr\<close>, \<^verbatim>\<open>Port\<close> or \<^verbatim>\<open>Tags\<close>)
  reports a change.
\<close>

theorem cluster_diff_suppression:
  "(fst (checkClusterChanged srt new lst) \<longleftrightarrow>
      \<not> (length new = length lst \<and> list_all2 (sameSorted srt) new lst)) \<and>
   (in_fetch inp = FetchOk services idx \<and>
    \<not> checkCheckersEqual (oldCheckers ws) (ps (concat (map Checks services)) status) \<longrightarrow>
      sent (snd (watchService_body srt ps addEnvTag status dc ws inp)) =
        (if fst (checkClusterChanged srt
                   (fst (servicesConfig addEnvTag (in_catalog inp) (in_order inp)
                           (ps (concat (map Checks services)) status) dc))
                   (lastConfig ws))
         then [lastConfig (fst (watchService_body srt ps addEnvTag status dc ws inp))] else []) \<and>
      lastConfig (fst (watchService_body srt ps addEnvTag status dc ws inp)) =
        fst (snd (checkClusterChanged srt
                   (fst (servicesConfig addEnvTag (in_catalog inp) (in_order inp)
                           (ps (concat (map Checks services)) status) dc))
                   (lastConfig ws)))) \<and>
   (sent (snd (watchServices_body srt service st (Recv i v))) =
      (if fst (checkClusterChanged srt (mergeResult service ((slots st)[i := v])) (lastResult st))
       then [lastResult (fst (watchServices_body srt service st (Recv i v)))] else []) \<and>
    lastResult (fst (watchServices_body srt service st (Recv i v))) =
      fst (snd (checkClusterChanged srt (mergeResult service ((slots st)[i := v])) (lastResult st)))) \<and>
   (sorting srt \<and>
    list_all2 (\<lambda>c1 c2. permutedEndpoints c1 c2 \<and> distinct (map ID (elems (Endpoints c1))))
      new lst \<longrightarrow> \<not> fst (checkClusterChanged srt new lst)) \<and>
   (sorting srt \<and>
    j < length new \<and> j < length lst \<and> k < length (elems (Endpoints (lst ! j))) \<and>
    e \<noteq> elems (Endpoints (lst ! j)) ! k \<and>
    mset (elems (Endpoints (new ! j))) = mset ((elems (Endpoints (lst ! j)))[k := e]) \<longrightarrow>
      fst (checkClusterChanged srt new lst))"
proof (intro conjI)
  show "fst (checkClusterChanged srt new lst) \<longleftrightarrow>
          \<not> (length new = length lst \<and> list_all2 (sameSorted srt) new lst)"
    by (rule fst_checkClusterChanged)
next
  show "in_fetch inp = FetchOk services idx \<and>
    \<not> checkCheckersEqual (oldCheckers ws) (ps (concat (map Checks services)) status) \<longrightarrow>
      sent (snd (watchService_body srt ps addEnvTag status dc ws inp)) =
        (if fst (checkClusterChanged srt
                   (fst (servicesConfig addEnvTag (in_catalog inp) (in_order inp)
                           (ps (concat (map Checks services)) status) dc))
                   (lastConfig ws))
         then [lastConfig (fst (watchService_body srt ps addEnvTag status dc ws inp))] else []) \<and>
      lastConfig (fst (watchService_body srt ps addEnvTag status dc ws inp)) =
        fst (snd (checkClusterChanged srt
                   (fst (servicesConfig addEnvTag (in_catalog inp) (in_order inp)
                           (ps (concat (map Checks services)) status) dc))
                   (lastConfig ws)))"
    by (simp add: watchService_body_ok sent_append sent_servicesConfig)
next
  show "sent (snd (watchServices_body srt service st (Recv i v))) =
      (if fst (checkClusterChanged srt (mergeResult service ((slots st)[i := v])) (lastResult st))
       then [lastResult (fst (watchServices_body srt service st (Recv i v)))] else [])"
    by (simp add: watchServices_body_Recv)
next
  show "lastResult (fst (watchServices_body srt service st (Recv i v))) =
      fst (snd (checkClusterChanged srt (mergeResult service ((slots st)[i := v])) (lastResult st)))"
    by (simp add: watchServices_body_Recv)
next
  show "sorting srt \<and>
    list_all2 (\<lambda>c1 c2. permutedEndpoints c1 c2 \<and> distinct (map ID (elems (Endpoints c1))))
      new lst \<longrightarrow> \<not> fst (checkClusterChanged srt new lst)"
    using unchanged_if_permuted by blast
next
  show "sorting srt \<and>
    j < length new \<and> j < length lst \<and> k < length (elems (Endpoints (lst ! j))) \<and>
    e \<noteq> elems (Endpoints (lst ! j)) ! k \<and>
    mset (elems (Endpoints (new ! j))) = mset ((elems (Endpoints (lst ! j)))[k := e]) \<longrightarrow>
      fst (checkClusterChanged srt new lst)"
    using changed_if_endpoint_differs by blast
qed

theorem cluster_diff_suppression_witness:
  "sorting insertionSort \<and>
   list_all2 (\<lambda>c1 c2. permutedEndpoints c1 c2 \<and> distinct (map ID (elems (Endpoints c1))))
     [exCluster [exEndpoint ''i1'' ''10.0.0.1'', exEndpoint ''i2'' ''10.0.0.2'']]
     [exCluster [exEndpoint ''i2'' ''10.0.0.2'', exEndpoint ''i1'' ''10.0.0.1'']] \<and>
   \<not> fst (checkClusterChanged insertionSort
     [exCluster [exEndpoint ''i1'' ''10.0.0.1'', exEndpoint ''i2'' ''10.0.0.2'']]
     [exCluster [exEndpoint ''i2'' ''10.0.0.2'', exEndpoint ''i1'' ''10.0.0.1'']]) \<and>
   exEndpoint ''i2'' ''10.0.0.3'' \<noteq>
     elems (Endpoints ([exCluster [exEndpoint ''i1'' ''10.0.0.1'', exEndpoint ''i2'' ''10.0.0.2'']] ! 0)) ! 1 \<and>
   fst (checkClusterChanged insertionSort
     [exCluster [exEndpoint ''i2'' ''10.0.0.3'', exEndpoint ''i1'' ''10.0.0.1'']]
     [exCluster [exEndpoint ''i1'' ''10.0.0.1'', exEndpoint ''i2'' ''10.0.0.2'']]) \<and>
   \<not> checkCheckersEqual (oldCheckers watchInit)
       (passingServices (concat (map Checks [\<lparr>Checks = [exCheck ''orders'' ''orders1'']\<rparr>]))
          [''passing'']) \<and>
   lastConfig (fst (watchService_body insertionSort passingServices (AddEnvTag ''env=test'') [''passing'']
                      ''us'' watchInit (exInput ''orders'' 7))) =
     fst (snd (checkClusterChanged insertionSort
       (fst (servicesConfig (AddEnvTag ''env=test'') (in_catalog (exInput ''orders'' 7))
               (in_order (exInput ''orders'' 7))
               (passingServices (concat (map Checks [\<lparr>Checks = [exCheck ''orders'' ''orders1'']\<rparr>]))
                  [''passing'']) ''us''))
       (lastConfig watchInit)))"
proof -
  let ?new = "[exCluster [exEndpoint ''i1'' ''10.0.0.1'', exEndpoint ''i2'' ''10.0.0.2'']]"
  let ?lst = "[exCluster [exEndpoint ''i2'' ''10.0.0.2'', exEndpoint ''i1'' ''10.0.0.1'']]"
  let ?new' = "[exCluster [exEndpoint ''i2'' ''10.0.0.3'', exEndpoint ''i1'' ''10.0.0.1'']]"
  let ?services = "[\<lparr>Checks = [exCheck ''orders'' ''orders1'']\<rparr>]"
  have h0: "sorting insertionSort" by (rule sorting_insertionSort)
  have h1: "list_all2 (\<lambda>c1 c2. permutedEndpoints c1 c2 \<and>
              distinct (map ID (elems (Endpoints c1)))) ?new ?lst"
    by (simp add: permutedEndpoints_def exCluster_def exEndpoint_def)
  have c1: "\<not> fst (checkClusterChanged insertionSort ?new ?lst)"
    by (rule cluster_diff_suppression
          [THEN conjunct2, THEN conjunct2, THEN conjunct2, THEN conjunct1, THEN mp])
       (intro conjI h0 h1)
  have h2: "sorting insertionSort \<and>
    0 < length ?new' \<and> 0 < length ?new \<and> 1 < length (elems (Endpoints (?new ! 0))) \<and>
    exEndpoint ''i2'' ''10.0.0.3'' \<noteq> elems (Endpoints (?new ! 0)) ! 1 \<and>
    mset (elems (Endpoints (?new' ! 0))) =
      mset ((elems (Endpoints (?new ! 0)))[1 := exEndpoint ''i2'' ''10.0.0.3''])"
    by (simp add: exCluster_def exEndpoint_def h0)
  have c2: "fst (checkClusterChanged insertionSort ?new' ?new)"
    by (rule cluster_diff_suppression
          [THEN conjunct2, THEN conjunct2, THEN conjunct2, THEN conjunct2, THEN mp])
       (rule h2)
  have h3: "in_fetch (exInput ''orders'' 7) = FetchOk ?services 7 \<and>
    \<not> checkCheckersEqual (oldCheckers watchInit)
        (passingServices (concat (map Checks ?services)) [''passing''])"
    by (simp add: exInput_def watchInit_def passingServices_def checkCheckersEqual_def
          checkIn_def exCheck_def)
  note c3 = cluster_diff_suppression
      [where inp = "exInput ''orders'' 7" and services = ?services and idx = 7
         and ws = watchInit and ps = passingServices and status = "[''passing'']"
         and addEnvTag = "AddEnvTag ''env=test''" and dc = "''us''",
       THEN conjunct2, THEN conjunct1, THEN mp, OF h3, THEN conjunct2]
  from h0 h1 c1 h2 c2 h3 c3 show ?thesis by (intro conjI) blast+
qed

text \<open>
  The claim as stated fails when two endpoints of a cluster share their \<^verbatim>\<open>ID\<close>:
  on a slice of two endpoints the sort is an insertion sort and keeps them in the order
  they came in, so the same two endpoints in the other order are reported as a change,
  and the aggregator sends a second time.
\<close>

theorem cluster_diff_suppression_counterexample:
  "permutedEndpoints (exCluster [exEndpoint ''web'' ''10.0.0.2'', exEndpoint ''web'' ''10.0.0.1''])
                     (exCluster [exEndpoint ''web'' ''10.0.0.1'', exEndpoint ''web'' ''10.0.0.2'']) \<and>
   fst (checkClusterChanged insertionSort
          [exCluster [exEndpoint ''web'' ''10.0.0.2'', exEndpoint ''web'' ''10.0.0.1'']]
          [exCluster [exEndpoint ''web'' ''10.0.0.1'', exEndpoint ''web'' ''10.0.0.2'']]) \<and>
   map_option (\<lambda>r. sent (snd r))
     (watchServices_run insertionSort ''orders'' (aggInit 1)
        [Recv 0 [exCluster [exEndpoint ''web'' ''10.0.0.1'', exEndpoint ''web'' ''10.0.0.2'']],
         Recv 0 [exCluster [exEndpoint ''web'' ''10.0.0.2'', exEndpoint ''web'' ''10.0.0.1'']]]) =
   Some [[exCluster [exEndpoint ''web'' ''10.0.0.1'', exEndpoint ''web'' ''10.0.0.2'']],
         [exCluster [exEndpoint ''web'' ''10.0.0.2'', exEndpoint ''web'' ''10.0.0.1'']]]"
  by (simp add: permutedEndpoints_def exCluster_def exEndpoint_def fst_checkClusterChanged
        sameSorted_def selectable_def aggInit_def watchServices_body_Recv mergeResult_def
        mergeLoop_def len_def checkClusterChanged_eq checkLoop_Cons sortCluster_def
        insertionSort_def)

subsection \<open>Suppression by the comparison of passing sets\<close>

lemma tagsDeepEqual_iff: "tagsDeepEqual s t \<longleftrightarrow> s = t"
  by (cases s; cases t) (simp_all add: tagsDeepEqual_def)

lemma checkMatch_iff: "checkMatch j h \<longleftrightarrow> recordsMatch tagsDeepEqual h j"
  by (auto simp: checkMatch_def recordsMatch_def tagsDeepEqual_iff)

lemma checkIn_iff: "checkIn h1 h2 \<longleftrightarrow> containedIn (recordsMatch tagsDeepEqual) h1 h2"
  by (simp add: checkIn_def containedIn_def list_all_iff list_ex_iff checkMatch_iff)

lemma checkCheckersEqual_iff:
  "checkCheckersEqual old new \<longleftrightarrow> bidirectional (recordsMatch tagsDeepEqual) old new"
  by (simp add: checkCheckersEqual_def bidirectional_def checkIn_iff)

text \<open>
  Claim C3, amended. \<^verbatim>\<open>checkCheckersEqual\<close> holds exactly when every record of
  each list has a match in the other, where a match is the equality of \<^verbatim>\<open>Node\<close>,
  \<^verbatim>\<open>CheckID\<close>, \<^verbatim>\<open>Name\<close>, \<^verbatim>\<open>Status\<close>, \<^verbatim>\<open>ServiceID\<close> and
  \<^verbatim>\<open>ServiceName\<close> and the deep equality of the tags: equal element by element in
  order, and both nil or neither. When the new passing set and the last one are equal in
  this sense, the iteration sets the cursor and does nothing else: it has no effect (no
  catalog lookup, nothing sent) and leaves the rest of the state as it is.
\<close>

theorem passing_set_suppression:
  "(checkCheckersEqual old new \<longleftrightarrow> bidirectional (recordsMatch tagsDeepEqual) old new) \<and>
   (in_fetch inp = FetchOk services idx \<and>
    bidirectional (recordsMatch tagsDeepEqual) (oldCheckers st)
      (ps (concat (map Checks services)) status) \<longrightarrow>
    watchService_body srt ps addEnvTag status dc st inp = (st\<lparr>lastIndex := idx\<rparr>, []))"
proof (intro conjI impI)
  show "checkCheckersEqual old new \<longleftrightarrow> bidirectional (recordsMatch tagsDeepEqual) old new"
    by (rule checkCheckersEqual_iff)
next
  assume a: "in_fetch inp = FetchOk services idx \<and>
    bidirectional (recordsMatch tagsDeepEqual) (oldCheckers st)
      (ps (concat (map Checks services)) status)"
  then have "checkCheckersEqual (oldCheckers st) (ps (concat (map Checks services)) status)"
    by (simp add: checkCheckersEqual_iff)
  with a show "watchService_body srt ps addEnvTag status dc st inp = (st\<lparr>lastIndex := idx\<rparr>, [])"
    by (simp add: watchService_body_ok)
qed

lemma exCheckTags_Nil: "exCheckTags name sid NilSlice = exCheck name sid"
  by (simp add: exCheckTags_def exCheck_def)

lemma exInputTags_Nil: "exInputTags name NilSlice idx = exInput name idx"
  by (simp add: exInputTags_def exInput_def exCheckTags_Nil)

theorem passing_set_suppression_witness:
  "in_fetch (exInput ''orders'' 8) = FetchOk [\<lparr>Checks = [exCheck ''orders'' ''orders1'']\<rparr>] 8 \<and>
   bidirectional (recordsMatch tagsDeepEqual)
     (oldCheckers (fst (watchService_body insertionSort passingServices (AddEnvTag ''env=test'') [''passing'']
                          ''us'' watchInit (exInput ''orders'' 7))))
     (passingServices (concat (map Checks [\<lparr>Checks = [exCheck ''orders'' ''orders1'']\<rparr>]))
        [''passing'']) \<and>
   watchService_body insertionSort passingServices (AddEnvTag ''env=test'') [''passing''] ''us''
     (fst (watchService_body insertionSort passingServices (AddEnvTag ''env=test'') [''passing''] ''us''
             watchInit (exInput ''orders'' 7)))
     (exInput ''orders'' 8) =
   ((fst (watchService_body insertionSort passingServices (AddEnvTag ''env=test'') [''passing''] ''us''
             watchInit (exInput ''orders'' 7)))\<lparr>lastIndex := 8\<rparr>, [])"
proof -
  let ?st = "fst (watchService_body insertionSort passingServices (AddEnvTag ''env=test'') [''passing''] ''us''
             watchInit (exInput ''orders'' 7))"
  let ?services = "[\<lparr>Checks = [exCheck ''orders'' ''orders1'']\<rparr>]"
  have h1: "in_fetch (exInput ''orders'' 8) = FetchOk ?services 8"
    by (simp add: exInput_def)
  have h2: "bidirectional (recordsMatch tagsDeepEqual) (oldCheckers ?st)
      (passingServices (concat (map Checks ?services)) [''passing''])"
    by (simp add: watchService_first passingServices_def bidirectional_def containedIn_def
          recordsMatch_def tagsDeepEqual_def exCheck_def)
  from h1 h2 have h: "in_fetch (exInput ''orders'' 8) = FetchOk ?services 8 \<and>
      bidirectional (recordsMatch tagsDeepEqual) (oldCheckers ?st)
        (passingServices (concat (map Checks ?services)) [''passing''])" ..
  note c = passing_set_suppression [where inp = "exInput ''orders'' 8" and services = ?services
      and idx = 8 and st = ?st and ps = passingServices and status = "[''passing'']"
      and addEnvTag = "AddEnvTag ''env=test''" and dc = "''us''",
      THEN conjunct2, THEN mp, OF h]
  from h1 h2 c show ?thesis by (intro conjI)
qed

text \<open>
  The claim as stated fails when a check comes with nil tags in one fetch and with empty
  tags that are not nil in the next (JSON \<^verbatim>\<open>null\<close> and \<^verbatim>\<open>[]\<close>): the tags are
  equal element by element, \<^verbatim>\<open>reflect.DeepEqual\<close> tells them apart, and the
  iteration looks the service up in the catalog.
\<close>

theorem passing_set_suppression_counterexample:
  "oldCheckers (fst (watchService_body insertionSort passingServices (AddEnvTag ''env=test'') [''passing'']
                       ''us'' watchInit (exInputTags ''orders'' NilSlice 7))) =
     [exCheckTags ''orders'' ''orders1'' NilSlice] \<and>
   passingServices (concat (map Checks [\<lparr>Checks = [exCheckTags ''orders'' ''orders1'' (Slice [])]\<rparr>]))
     [''passing''] = [exCheckTags ''orders'' ''orders1'' (Slice [])] \<and>
   bidirectional (recordsMatch tagsEqual)
     [exCheckTags ''orders'' ''orders1'' NilSlice] [exCheckTags ''orders'' ''orders1'' (Slice [])] \<and>
   catalogCalls (snd (watchService_body insertionSort passingServices (AddEnvTag ''env=test'') [''passing'']
       ''us''
       (fst (watchService_body insertionSort passingServices (AddEnvTag ''env=test'') [''passing''] ''us''
               watchInit (exInputTags ''orders'' NilSlice 7)))
       (exInputTags ''orders'' (Slice []) 8))) = [(''orders'', ''us'')]"
proof -
  have p: "passingServices [exCheckTags ''orders'' ''orders1'' (Slice [])] [''passing''] =
             [exCheckTags ''orders'' ''orders1'' (Slice [])]"
    by (simp add: passingServices_def exCheckTags_def exCheck_def)
  have n: "\<not> checkCheckersEqual [exCheck ''orders'' ''orders1'']
             [exCheckTags ''orders'' ''orders1'' (Slice [])]"
    by (simp add: checkCheckersEqual_def checkIn_def checkMatch_def exCheckTags_def exCheck_def)
  have b: "bidirectional (recordsMatch tagsEqual)
     [exCheckTags ''orders'' ''orders1'' NilSlice] [exCheckTags ''orders'' ''orders1'' (Slice [])]"
    by (simp add: bidirectional_def containedIn_def recordsMatch_def tagsEqual_def
          exCheckTags_def exCheck_def)
  have s: "snd (servicesConfig (AddEnvTag ''env=test'') exCatalog [''orders'']
             [exCheckTags ''orders'' ''orders1'' (Slice [])] ''us'') =
           [CallCatalog ''orders'' ''us'', CallAddEnvTag ''orders'']"
    by (simp add: servicesConfig_def groupChecks_single serviceConfig_def exCatalog_def
          exCheckTags_def exCheck_def)
  have c: "catalogCalls (snd (watchService_body insertionSort passingServices (AddEnvTag ''env=test'')
       [''passing''] ''us''
       (fst (watchService_body insertionSort passingServices (AddEnvTag ''env=test'') [''passing''] ''us''
               watchInit (exInput ''orders'' 7)))
       (exInputTags ''orders'' (Slice []) 8))) = [(''orders'', ''us'')]"
    by (simp add: watchService_first watchService_body_ok [where services =
          "[\<lparr>Checks = [exCheckTags ''orders'' ''orders1'' (Slice [])]\<rparr>]" and idx = 8]
          exInputTags_def p n s catalogCalls_append)
  from p b c show ?thesis
    by (simp add: exInputTags_Nil exCheckTags_Nil watchService_first)
qed

subsection \<open>The cursor\<close>

lemma lastIndex_body:
  "lastIndex (fst (watchService_body srt ps addEnvTag status dc st inp)) =
     (case in_fetch inp of FetchError \<Rightarrow> lastIndex st | FetchOk services idx \<Rightarrow> idx)"
  by (cases "in_fetch inp") (simp_all add: watchService_body_error watchService_body_ok)

lemma cursorTrace_eq: "cursorTrace srt ps addEnvTag status dc st inps = returnedIndexes inps"
proof (induction inps arbitrary: st)
  case Nil
  show ?case by simp
next
  case (Cons inp inps)
  show ?case
    using lastIndex_body [of srt ps addEnvTag status dc st inp]
    by (cases "in_fetch inp") (auto simp add: Cons.IH split: prod.splits)
qed

lemma lastIndex_run:
  "lastIndex (fst (watchService_run srt ps addEnvTag status dc st inps)) =
     last (lastIndex st # returnedIndexes inps)"
proof (induction inps arbitrary: st)
  case Nil
  show ?case by simp
next
  case (Cons inp inps)
  show ?case
    by (cases "in_fetch inp")
       (simp_all add: fst_run_Cons Cons.IH lastIndex_body del: watchService_run.simps)
qed

text \<open>
  Claim C4, amended. Every successful fetch sets the cursor to the index that the
  registry returned, whether or not anything is sent, and a failed fetch leaves the state
  as it is and only sleeps. So the cursor values after the successful fetches of a run
  are exactly the indexes the registry returned, in order, and the cursor after a run is
  the last of them: the cursor is as monotonic as the registry's indexes are, and the
  code adds nothing to that.
\<close>

theorem cursor_follows_registry:
  "(in_fetch inp = FetchOk services idx \<longrightarrow>
      lastIndex (fst (watchService_body srt ps addEnvTag status dc st inp)) = idx) \<and>
   (in_fetch inp = FetchError \<longrightarrow>
      watchService_body srt ps addEnvTag status dc st inp = (st, [Sleep])) \<and>
   cursorTrace srt ps addEnvTag status dc st inps = returnedIndexes inps \<and>
   lastIndex (fst (watchService_run srt ps addEnvTag status dc st inps)) =
     last (lastIndex st # returnedIndexes inps)"
proof (intro conjI impI)
  assume "in_fetch inp = FetchOk services idx"
  then show "lastIndex (fst (watchService_body srt ps addEnvTag status dc st inp)) = idx"
    by (simp add: lastIndex_body)
next
  assume "in_fetch inp = FetchError"
  then show "watchService_body srt ps addEnvTag status dc st inp = (st, [Sleep])"
    by (rule watchService_body_error)
next
  show "cursorTrace srt ps addEnvTag status dc st inps = returnedIndexes inps"
    by (rule cursorTrace_eq)
next
  show "lastIndex (fst (watchService_run srt ps addEnvTag status dc st inps)) =
     last (lastIndex st # returnedIndexes inps)"
    by (rule lastIndex_run)
qed

theorem cursor_follows_registry_witness:
  "in_fetch (exInput ''orders'' 7) = FetchOk [\<lparr>Checks = [exCheck ''orders'' ''orders1'']\<rparr>] 7 \<and>
   lastIndex (fst (watchService_body insertionSort passingServices (AddEnvTag ''env=test'') [''passing'']
                     ''us'' watchInit (exInput ''orders'' 7))) = 7 \<and>
   in_fetch exInputError = FetchError \<and>
   watchService_body insertionSort passingServices (AddEnvTag ''env=test'') [''passing''] ''us''
     (watchInit\<lparr>lastIndex := 7\<rparr>) exInputError = (watchInit\<lparr>lastIndex := 7\<rparr>, [Sleep]) \<and>
   cursorTrace insertionSort passingServices (AddEnvTag ''env=test'') [''passing''] ''us'' watchInit
     [exInput ''orders'' 7, exInputError, exInputNone 9] = [7, 9]"
proof -
  have h1: "in_fetch (exInput ''orders'' 7) = FetchOk [\<lparr>Checks = [exCheck ''orders'' ''orders1'']\<rparr>] 7"
    by (simp add: exInput_def)
  note c1 = cursor_follows_registry [where ps = passingServices
      and addEnvTag = "AddEnvTag ''env=test''" and status = "[''passing'']" and dc = "''us''"
      and st = watchInit, THEN conjunct1, THEN mp, OF h1]
  have h2: "in_fetch exInputError = FetchError" by (simp add: exInputError_def)
  note c2 = cursor_follows_registry [where ps = passingServices
      and addEnvTag = "AddEnvTag ''env=test''" and status = "[''passing'']" and dc = "''us''"
      and st = "watchInit\<lparr>lastIndex := 7\<rparr>", THEN conjunct2, THEN conjunct1, THEN mp, OF h2]
  have c3: "cursorTrace insertionSort passingServices (AddEnvTag ''env=test'') [''passing''] ''us'' watchInit
     [exInput ''orders'' 7, exInputError, exInputNone 9] = [7, 9]"
    unfolding cursor_follows_registry [THEN conjunct2, THEN conjunct2, THEN conjunct1]
    by (simp add: exInput_def exInputError_def exInputNone_def)
  from h1 c1 h2 c2 c3 show ?thesis by (intro conjI)
qed

text \<open>
  The claim as stated fails when the registry returns the same index twice (a blocking
  query that timed out) or a smaller one (a registry restored from a snapshot): the
  cursor does not advance, and then decreases.
\<close>

theorem cursor_follows_registry_counterexample:
  "cursorTrace insertionSort passingServices (AddEnvTag ''env=test'') [''passing''] ''us'' watchInit
     [exInputNone 5, exInputNone 5, exInputNone 3] = [5, 5, 3] \<and>
   \<not> sorted (cursorTrace insertionSort passingServices (AddEnvTag ''env=test'') [''passing''] ''us'' watchInit
     [exInputNone 5, exInputNone 5, exInputNone 3])"
  by (simp add: cursorTrace_eq exInputNone_def)

subsection \<open>Failed catalog lookups and the environment tag\<close>

lemma servicesConfig_rangeOrder:
  assumes "rangeOrder (groupChecks checks) order"
  shows "servicesConfig addEnvTag catalog order checks dc =
     (map (\<lambda>name. fst (serviceConfig addEnvTag catalog name (the (groupChecks checks name)) dc))
          order,
      concat (map (\<lambda>name. snd (serviceConfig addEnvTag catalog name
                                  (the (groupChecks checks name)) dc)) order))"
proof -
  from assms have "filter (\<lambda>name. groupChecks checks name \<noteq> None) order = order"
    by (auto simp: rangeOrder_def filter_id_conv)
  then show ?thesis by (simp add: servicesConfig_eq)
qed

text \<open>
  Claim C5, amended. For a service name that is not empty and has passing ids: when the
  catalog lookup fails, \<^verbatim>\<open>serviceConfig\<close> returns the cluster of that name with an
  empty endpoint list, and \<^verbatim>\<open>AddEnvTag\<close> is not called; when the lookup succeeds,
  \<^verbatim>\<open>AddEnvTag\<close> is called once on the cluster, after the loop, however many
  endpoints matched, also when none did. \<^verbatim>\<open>servicesConfig\<close> returns one cluster
  for every service name of the batch, each computed on its own, so a failed lookup does
  not touch the clusters of the other names.
\<close>

theorem catalog_failure_isolated:
  "(name \<noteq> [] \<and> passing \<noteq> {} \<and> catalog name dc = None \<longrightarrow>
      serviceConfig addEnvTag catalog name passing dc =
        (\<lparr>Name = name, Endpoints = Slice []\<rparr>, [CallCatalog name dc])) \<and>
   (name \<noteq> [] \<and> passing \<noteq> {} \<and> catalog name dc = Some svcs \<longrightarrow>
      serviceConfig addEnvTag catalog name passing dc =
        (addEnvTag \<lparr>Name = name, Endpoints =
           Slice (map endpoint (filter (\<lambda>svc. ServiceID svc \<in> passing) svcs))\<rparr>,
         [CallCatalog name dc, CallAddEnvTag name])) \<and>
   (name \<noteq> [] \<and> passing \<noteq> {} \<and> catalog name dc = Some svcs \<and>
    list_all (\<lambda>svc. ServiceID svc \<notin> passing) svcs \<longrightarrow>
      serviceConfig addEnvTag catalog name passing dc =
        (addEnvTag \<lparr>Name = name, Endpoints = Slice []\<rparr>,
         [CallCatalog name dc, CallAddEnvTag name])) \<and>
   (rangeOrder (groupChecks checks) order \<longrightarrow>
      servicesConfig addEnvTag catalog order checks dc =
        (map (\<lambda>name. fst (serviceConfig addEnvTag catalog name
                             (the (groupChecks checks name)) dc)) order,
         concat (map (\<lambda>name. snd (serviceConfig addEnvTag catalog name
                                     (the (groupChecks checks name)) dc)) order)))"
proof (intro conjI impI)
  assume "name \<noteq> [] \<and> passing \<noteq> {} \<and> catalog name dc = None"
  then show "serviceConfig addEnvTag catalog name passing dc =
        (\<lparr>Name = name, Endpoints = Slice []\<rparr>, [CallCatalog name dc])"
    by (simp add: serviceConfig_cases)
next
  assume "name \<noteq> [] \<and> passing \<noteq> {} \<and> catalog name dc = Some svcs"
  then show "serviceConfig addEnvTag catalog name passing dc =
        (addEnvTag \<lparr>Name = name, Endpoints =
           Slice (map endpoint (filter (\<lambda>svc. ServiceID svc \<in> passing) svcs))\<rparr>,
         [CallCatalog name dc, CallAddEnvTag name])"
    by (simp add: serviceConfig_cases)
next
  assume a: "name \<noteq> [] \<and> passing \<noteq> {} \<and> catalog name dc = Some svcs \<and>
    list_all (\<lambda>svc. ServiceID svc \<notin> passing) svcs"
  then have "filter (\<lambda>svc. ServiceID svc \<in> passing) svcs = []"
    by (simp add: list_all_iff filter_empty_conv)
  with a show "serviceConfig addEnvTag catalog name passing dc =
        (addEnvTag \<lparr>Name = name, Endpoints = Slice []\<rparr>,
         [CallCatalog name dc, CallAddEnvTag name])"
    by (simp add: serviceConfig_cases)
next
  assume "rangeOrder (groupChecks checks) order"
  then show "servicesConfig addEnvTag catalog order checks dc =
        (map (\<lambda>name. fst (serviceConfig addEnvTag catalog name
                             (the (groupChecks checks name)) dc)) order,
         concat (map (\<lambda>name. snd (serviceConfig addEnvTag catalog name
                                     (the (groupChecks checks name)) dc)) order))"
    by (rule servicesConfig_rangeOrder)
qed

theorem catalog_failure_isolated_witness:
  "rangeOrder (groupChecks [exCheck ''a'' ''a1'', exCheck ''b'' ''b1'']) [''a'', ''b''] \<and>
   servicesConfig (AddEnvTag ''env=test'') exCatalogPart [''a'', ''b'']
     [exCheck ''a'' ''a1'', exCheck ''b'' ''b1''] ''us'' =
     ([\<lparr>Name = ''a'', Endpoints = Slice []\<rparr>,
       \<lparr>Name = ''b'', Endpoints = Slice [\<lparr>ID = ''b1'', Addr = ''10.0.0.1'', Port = 8080,
                                          Tags = Slice [''dc=us'', ''env=test'']\<rparr>]\<rparr>],
      [CallCatalog ''a'' ''us'', CallCatalog ''b'' ''us'', CallAddEnvTag ''b'']) \<and>
   list_all (\<lambda>svc. ServiceID svc \<notin> {''other''}) [exInstance ''orders1'' ''us''] \<and>
   serviceConfig (AddEnvTag ''env=test'') exCatalog ''orders'' {''other''} ''us'' =
     (\<lparr>Name = ''orders'', Endpoints = Slice []\<rparr>,
      [CallCatalog ''orders'' ''us'', CallAddEnvTag ''orders''])"
proof -
  let ?checks = "[exCheck ''a'' ''a1'', exCheck ''b'' ''b1'']"
  have h1: "rangeOrder (groupChecks ?checks) [''a'', ''b'']"
    by (auto simp add: groupChecks_ex rangeOrder_def)
  have ha: "''a'' \<noteq> [] \<and> {''a1''} \<noteq> ({} :: string set) \<and> exCatalogPart ''a'' ''us'' = None"
    by (simp add: exCatalogPart_def)
  have hb: "''b'' \<noteq> [] \<and> {''b1''} \<noteq> ({} :: string set) \<and>
            exCatalogPart ''b'' ''us'' = Some [exInstance ''b1'' ''us'']"
    by (simp add: exCatalogPart_def exCatalog_def)
  note ca = catalog_failure_isolated [where addEnvTag = "AddEnvTag ''env=test''"
      and catalog = exCatalogPart and name = "''a''" and dc = "''us''" and passing = "{''a1''}",
      THEN conjunct1, THEN mp, OF ha]
  note cb = catalog_failure_isolated [where addEnvTag = "AddEnvTag ''env=test''"
      and catalog = exCatalogPart and name = "''b''" and dc = "''us''" and passing = "{''b1''}"
      and svcs = "[exInstance ''b1'' ''us'']",
      THEN conjunct2, THEN conjunct1, THEN mp, OF hb]
  have c1: "servicesConfig (AddEnvTag ''env=test'') exCatalogPart [''a'', ''b''] ?checks ''us'' =
     ([\<lparr>Name = ''a'', Endpoints = Slice []\<rparr>,
       \<lparr>Name = ''b'', Endpoints = Slice [\<lparr>ID = ''b1'', Addr = ''10.0.0.1'', Port = 8080,
                                          Tags = Slice [''dc=us'', ''env=test'']\<rparr>]\<rparr>],
      [CallCatalog ''a'' ''us'', CallCatalog ''b'' ''us'', CallAddEnvTag ''b''])"
    unfolding catalog_failure_isolated [where addEnvTag = "AddEnvTag ''env=test''"
        and catalog = exCatalogPart and dc = "''us''" and checks = ?checks
        and order = "[''a'', ''b'']",
        THEN conjunct2, THEN conjunct2, THEN conjunct2, THEN mp, OF h1]
    by (simp add: groupChecks_ex ca cb AddEnvTag_def exInstance_def endpoint_def)
  have h2: "''orders'' \<noteq> [] \<and> {''other''} \<noteq> ({} :: string set) \<and>
            exCatalog ''orders'' ''us'' = Some [exInstance ''orders1'' ''us''] \<and>
            list_all (\<lambda>svc. ServiceID svc \<notin> {''other''}) [exInstance ''orders1'' ''us'']"
    by (simp add: exCatalog_def exInstance_def)
  have c2: "serviceConfig (AddEnvTag ''env=test'') exCatalog ''orders'' {''other''} ''us'' =
     (\<lparr>Name = ''orders'', Endpoints = Slice []\<rparr>,
      [CallCatalog ''orders'' ''us'', CallAddEnvTag ''orders''])"
    unfolding catalog_failure_isolated [where addEnvTag = "AddEnvTag ''env=test''"
        and catalog = exCatalog and name = "''orders''" and dc = "''us''"
        and passing = "{''other''}" and svcs = "[exInstance ''orders1'' ''us'']",
        THEN conjunct2, THEN conjunct2, THEN conjunct1, THEN mp, OF h2]
    by (simp add: AddEnvTag_def)
  from h2 have h2': "list_all (\<lambda>svc. ServiceID svc \<notin> {''other''}) [exInstance ''orders1'' ''us'']"
    by blast
  from h1 c1 h2' c2 show ?thesis by (intro conjI)
qed

text \<open>
  The claim as stated fails for a lookup that was attempted and failed: the
  \<^verbatim>\<open>defer\<close> statement has not been reached, and \<^verbatim>\<open>AddEnvTag\<close> does not run.
\<close>

theorem catalog_failure_isolated_counterexample:
  "serviceConfig (AddEnvTag ''env=test'') exCatalogDown ''orders'' {''orders1''} ''us'' =
     (\<lparr>Name = ''orders'', Endpoints = Slice []\<rparr>, [CallCatalog ''orders'' ''us'']) \<and>
   CallAddEnvTag ''orders'' \<notin> set (snd (serviceConfig (AddEnvTag ''env=test'') exCatalogDown
                                          ''orders'' {''orders1''} ''us''))"
  by (simp add: serviceConfig_def exCatalogDown_def)

subsection \<open>Building the endpoints\<close>

lemma endpoint_fields:
  "ID (endpoint svc) = ServiceID svc"
  "Port (endpoint svc) = ServicePort svc"
  "Addr (endpoint svc) = (if ServiceAddress svc = [] then Address svc else ServiceAddress svc)"
  "Tags (endpoint svc) = Slice (sort (elems (ServiceTags svc) @ [''dc='' @ Datacenter svc]))"
  by (simp_all add: endpoint_def Let_def elems_append_slice)

text \<open>
  Claim C6. The loop over the catalog instances builds one endpoint for every instance
  whose \<^verbatim>\<open>ServiceID\<close> is in the passing set, in the order of the catalog, and none
  for the others. The endpoint of an instance has its \<^verbatim>\<open>ServiceID\<close> as
  \<^verbatim>\<open>ID\<close>, its \<^verbatim>\<open>ServicePort\<close> as \<^verbatim>\<open>Port\<close>, as \<^verbatim>\<open>Addr\<close> its
  \<^verbatim>\<open>ServiceAddress\<close>, or its \<^verbatim>\<open>Address\<close> exactly when the former is the empty
  string, and as \<^verbatim>\<open>Tags\<close> its own tags and the tag \<^verbatim>\<open>dc=\<close> followed by the
  instance's \<^verbatim>\<open>Datacenter\<close>, sorted. The cluster that \<^verbatim>\<open>serviceConfig\<close>
  returns after a successful lookup is this list of endpoints, passed through
  \<^verbatim>\<open>AddEnvTag\<close>.
\<close>

theorem endpoint_construction:
  "endpointLoop passing svcs (Slice []) =
     Slice (map endpoint (filter (\<lambda>svc. ServiceID svc \<in> passing) svcs)) \<and>
   ID (endpoint svc) = ServiceID svc \<and>
   Port (endpoint svc) = ServicePort svc \<and>
   Addr (endpoint svc) =
     (if ServiceAddress svc = [] then Address svc else ServiceAddress svc) \<and>
   Tags (endpoint svc) = Slice (sort (elems (ServiceTags svc) @ [''dc='' @ Datacenter svc])) \<and>
   sorted (elems (Tags (endpoint svc))) \<and>
   mset (elems (Tags (endpoint svc))) =
     mset (elems (ServiceTags svc)) + {#''dc='' @ Datacenter svc#} \<and>
   (name \<noteq> [] \<and> passing \<noteq> {} \<and> catalog name dc = Some svcs \<longrightarrow>
      fst (serviceConfig addEnvTag catalog name passing dc) =
        addEnvTag \<lparr>Name = name, Endpoints =
          Slice (map endpoint (filter (\<lambda>svc. ServiceID svc \<in> passing) svcs))\<rparr>)"
proof (intro conjI impI)
  show "endpointLoop passing svcs (Slice []) =
     Slice (map endpoint (filter (\<lambda>svc. ServiceID svc \<in> passing) svcs))"
    by (simp add: endpointLoop_Slice)
next
  show "ID (endpoint svc) = ServiceID svc" and "Port (endpoint svc) = ServicePort svc"
    and "Addr (endpoint svc) =
      (if ServiceAddress svc = [] then Address svc else ServiceAddress svc)"
    and t: "Tags (endpoint svc) =
      Slice (sort (elems (ServiceTags svc) @ [''dc='' @ Datacenter svc]))"
    by (rule endpoint_fields)+
  from t show "sorted (elems (Tags (endpoint svc)))" by simp
  from t show "mset (elems (Tags (endpoint svc))) =
     mset (elems (ServiceTags svc)) + {#''dc='' @ Datacenter svc#}" by simp
next
  assume "name \<noteq> [] \<and> passing \<noteq> {} \<and> catalog name dc = Some svcs"
  then show "fst (serviceConfig addEnvTag catalog name passing dc) =
        addEnvTag \<lparr>Name = name, Endpoints =
          Slice (map endpoint (filter (\<lambda>svc. ServiceID svc \<in> passing) svcs))\<rparr>"
    by (simp add: serviceConfig_cases)
qed

theorem endpoint_construction_witness:
  "''orders'' \<noteq> [] \<and> {''i1'', ''i3''} \<noteq> ({} :: string set) \<and>
   fst (serviceConfig (AddEnvTag ''env=test'')
          (\<lambda>name dc. Some [
             \<lparr>ServiceID = ''i1'', ServiceAddress = [], Address = ''10.0.0.1'', ServicePort = 8080,
              ServiceTags = Slice [''v2'', ''blue''], Datacenter = ''us''\<rparr>,
             \<lparr>ServiceID = ''i2'', ServiceAddress = ''10.1.0.2'', Address = ''10.0.0.2'',
              ServicePort = 8081, ServiceTags = NilSlice, Datacenter = ''us''\<rparr>,
             \<lparr>ServiceID = ''i3'', ServiceAddress = ''10.1.0.3'', Address = ''10.0.0.3'',
              ServicePort = 8082, ServiceTags = NilSlice, Datacenter = ''us''\<rparr>])
          ''orders'' {''i1'', ''i3''} ''us'') =
     \<lparr>Name = ''orders'', Endpoints = Slice [
        \<lparr>ID = ''i1'', Addr = ''10.0.0.1'', Port = 8080,
         Tags = Slice [''blue'', ''dc=us'', ''v2'', ''env=test'']\<rparr>,
        \<lparr>ID = ''i3'', Addr = ''10.1.0.3'', Port = 8082,
         Tags = Slice [''dc=us'', ''env=test'']\<rparr>]\<rparr>"
proof -
  let ?svcs = "[
             \<lparr>ServiceID = ''i1'', ServiceAddress = [], Address = ''10.0.0.1'', ServicePort = 8080,
              ServiceTags = Slice [''v2'', ''blue''], Datacenter = ''us''\<rparr>,
             \<lparr>ServiceID = ''i2'', ServiceAddress = ''10.1.0.2'', Address = ''10.0.0.2'',
              ServicePort = 8081, ServiceTags = NilSlice, Datacenter = ''us''\<rparr>,
             \<lparr>ServiceID = ''i3'', ServiceAddress = ''10.1.0.3'', Address = ''10.0.0.3'',
              ServicePort = 8082, ServiceTags = NilSlice, Datacenter = ''us''\<rparr>]"
  have h: "''orders'' \<noteq> [] \<and> {''i1'', ''i3''} \<noteq> ({} :: string set) \<and>
           (\<lambda>name dc. Some ?svcs) ''orders'' ''us'' = Some ?svcs"
    by simp
  note T = endpoint_construction [where name = "''orders''" and passing = "{''i1'', ''i3''}"
      and catalog = "\<lambda>name dc. Some ?svcs" and dc = "''us''" and svcs = ?svcs
      and addEnvTag = "AddEnvTag ''env=test''"]
  note c = T [THEN conjunct2, THEN conjunct2, THEN conjunct2, THEN conjunct2, THEN conjunct2,
      THEN conjunct2, THEN conjunct2, THEN mp, OF h]
  show ?thesis unfolding c
    by (simp add: AddEnvTag_def endpoint_def Let_def)
qed

subsection \<open>A closed channel\<close>

lemma cases_watchServices_body:
  "cases (fst (watchServices_body srt service st ev)) =
     (case ev of Recv i v \<Rightarrow> cases st | Closed i \<Rightarrow> (cases st)[i := False])"
  by (cases ev) (simp_all add: watchServices_body_Recv watchServices_body_Closed)

lemma selectable_after:
  "selectable (fst (watchServices_body srt service st ev)) ev' \<Longrightarrow> selectable st ev'"
  by (cases ev; cases "chosen ev = chosen ev'")
     (auto simp: selectable_def cases_watchServices_body nth_list_update)

lemma run_stays_closed:
  assumes "watchServices_run srt service st evs = Some (st', effs)"
    and "\<not> selectable st (Closed i)"
  shows "\<not> selectable st' (Closed i) \<and> list_all (\<lambda>ev. chosen ev \<noteq> i) evs"
  using assms
proof (induction evs arbitrary: st st' effs)
  case Nil
  then show ?case by simp
next
  case (Cons ev evs)
  from Cons.prems(1) have sel: "selectable st ev"
    by (simp split: if_splits)
  obtain st1 e1 where b: "watchServices_body srt service st ev = (st1, e1)"
    by (cases "watchServices_body srt service st ev")
  from Cons.prems(1) sel b obtain effs' where r: "watchServices_run srt service st1 evs = Some (st', effs')"
    by (auto split: option.splits)
  from Cons.prems(2) b selectable_after [of srt service st ev "Closed i"]
  have n: "\<not> selectable st1 (Closed i)" by auto
  from Cons.IH [OF r n] have "\<not> selectable st' (Closed i)" and "list_all (\<lambda>ev. chosen ev \<noteq> i) evs"
    by simp_all
  moreover from sel Cons.prems(2) have "chosen ev \<noteq> i"
    by (auto simp: selectable_def)
  ultimately show ?case by simp
qed

lemma list_update_False_swap:
  "(xs[i := False])[j := False] = (xs[j := False])[i := False]"
  by (cases "i = j") (simp_all add: list_update_swap)

lemma body_closeCase:
  "watchServices_body srt service (closeCase i st) ev =
     (closeCase i (fst (watchServices_body srt service st ev)), snd (watchServices_body srt service st ev))"
  by (cases ev)
     (simp_all add: watchServices_body_Recv watchServices_body_Closed closeCase_def
        list_update_False_swap)

lemma selectable_closeCase:
  "chosen ev \<noteq> i \<Longrightarrow> selectable (closeCase i st) ev = selectable st ev"
  by (simp add: selectable_def closeCase_def)

lemma run_closeCase:
  assumes "list_all (\<lambda>ev. chosen ev \<noteq> i) evs"
  shows "watchServices_run srt service (closeCase i st) evs =
           map_option (\<lambda>(s, effs). (closeCase i s, effs)) (watchServices_run srt service st evs)"
  using assms
proof (induction evs arbitrary: st)
  case Nil
  show ?case by simp
next
  case (Cons ev evs)
  then have c: "chosen ev \<noteq> i" and r: "list_all (\<lambda>ev. chosen ev \<noteq> i) evs" by simp_all
  show ?case
    by (simp add: selectable_closeCase [OF c] body_closeCase Cons.IH [OF r]
          split: prod.splits option.splits)
qed

lemma run_snoc:
  "watchServices_run srt service st (evs @ [ev]) \<noteq> None \<longleftrightarrow>
     (\<exists>st' effs. watchServices_run srt service st evs = Some (st', effs) \<and> selectable st' ev)"
proof (induction evs arbitrary: st)
  case Nil
  show ?case by (simp split: prod.splits)
next
  case (Cons e evs)
  show ?case
  proof (cases "selectable st e")
    case False
    then show ?thesis by simp
  next
    case True
    obtain st1 e1 where b: "watchServices_body srt service st e = (st1, e1)"
      by (cases "watchServices_body srt service st e")
    from True b Cons.IH [of st1] show ?thesis
      by (auto split: option.splits)
  qed
qed

text \<open>
  Claim C7. When \<^verbatim>\<open>reflect.Select\<close> reports the channel \<open>i\<close> closed, the
  iteration takes it out of the cases, sends nothing and leaves the slots and the last
  result as they are. From then on \<^verbatim>\<open>reflect.Select\<close> never chooses that channel
  again, in any run. A run over the other channels goes on exactly as it would have
  without the closure: it reaches the same slots and last result and has the same
  effects, so it sends whenever the merged cluster changes. The loop has no exit: a run
  continues with every result that \<^verbatim>\<open>reflect.Select\<close> can return in the state
  reached.
\<close>

theorem closed_domain_resilience:
  "watchServices_body srt service st (Closed i) = (closeCase i st, []) \<and>
   slots (closeCase i st) = slots st \<and> lastResult (closeCase i st) = lastResult st \<and>
   \<not> selectable (closeCase i st) (Recv i v) \<and> \<not> selectable (closeCase i st) (Closed i) \<and>
   (watchServices_run srt service (closeCase i st) evs = Some (st', effs) \<longrightarrow>
      \<not> selectable st' (Recv i v) \<and> \<not> selectable st' (Closed i) \<and>
      list_all (\<lambda>ev. chosen ev \<noteq> i) evs) \<and>
   (list_all (\<lambda>ev. chosen ev \<noteq> i) evs \<longrightarrow>
      watchServices_run srt service (closeCase i st) evs =
        map_option (\<lambda>(s, effs). (closeCase i s, effs)) (watchServices_run srt service st evs)) \<and>
   (watchServices_run srt service st (evs @ [ev]) \<noteq> None \<longleftrightarrow>
      (\<exists>st' effs. watchServices_run srt service st evs = Some (st', effs) \<and> selectable st' ev))"
proof (intro conjI impI)
  show "watchServices_body srt service st (Closed i) = (closeCase i st, [])"
    by (simp add: watchServices_body_Closed closeCase_def)
  show "slots (closeCase i st) = slots st" and "lastResult (closeCase i st) = lastResult st"
    by (simp_all add: closeCase_def)
  show n: "\<not> selectable (closeCase i st) (Closed i)"
    by (simp add: selectable_def closeCase_def)
  then show "\<not> selectable (closeCase i st) (Recv i v)"
    by (simp add: selectable_def)
  show "list_all (\<lambda>ev. chosen ev \<noteq> i) evs"
    if "watchServices_run srt service (closeCase i st) evs = Some (st', effs)"
    using run_stays_closed [OF that n] by simp
  show c: "\<not> selectable st' (Closed i)"
    if "watchServices_run srt service (closeCase i st) evs = Some (st', effs)"
    using run_stays_closed [OF that n] by simp
  show "\<not> selectable st' (Recv i v)"
    if "watchServices_run srt service (closeCase i st) evs = Some (st', effs)"
    using c [OF that] by (simp add: selectable_def)
  show "watchServices_run srt service (closeCase i st) evs =
        map_option (\<lambda>(s, effs). (closeCase i s, effs)) (watchServices_run srt service st evs)"
    if "list_all (\<lambda>ev. chosen ev \<noteq> i) evs"
    using that by (rule run_closeCase)
  show "watchServices_run srt service st (evs @ [ev]) \<noteq> None \<longleftrightarrow>
      (\<exists>st' effs. watchServices_run srt service st evs = Some (st', effs) \<and> selectable st' ev)"
    by (rule run_snoc)
qed

lemma run_example:
  "watchServices_run insertionSort ''orders'' (aggInit 2)
     [Recv 1 [exCluster [exEndpoint ''i1'' ''10.0.0.1'']],
      Recv 1 [exCluster [exEndpoint ''i1'' ''10.0.0.1'', exEndpoint ''i2'' ''10.0.0.2'']]] =
   Some (\<lparr>cases = [True, True],
          slots = [[], [exCluster [exEndpoint ''i1'' ''10.0.0.1'', exEndpoint ''i2'' ''10.0.0.2'']]],
          lastResult = [exCluster [exEndpoint ''i1'' ''10.0.0.1'', exEndpoint ''i2'' ''10.0.0.2'']]\<rparr>,
         [Send [exCluster [exEndpoint ''i1'' ''10.0.0.1'']],
          Send [exCluster [exEndpoint ''i1'' ''10.0.0.1'', exEndpoint ''i2'' ''10.0.0.2'']]])"
  by (simp add: aggInit_simps selectable_def watchServices_body_Recv mergeResult_def
        mergeLoop_simps checkClusterChanged_eq checkLoop_Cons sameSorted_def sortCluster_def
        exCluster_def exEndpoint_def insertionSort_def)

theorem closed_domain_resilience_witness:
  "list_all (\<lambda>ev. chosen ev \<noteq> 0)
     [Recv 1 [exCluster [exEndpoint ''i1'' ''10.0.0.1'']],
      Recv 1 [exCluster [exEndpoint ''i1'' ''10.0.0.1'', exEndpoint ''i2'' ''10.0.0.2'']]] \<and>
   watchServices_run insertionSort ''orders'' (fst (watchServices_body insertionSort ''orders'' (aggInit 2) (Closed 0)))
     [Recv 1 [exCluster [exEndpoint ''i1'' ''10.0.0.1'']],
      Recv 1 [exCluster [exEndpoint ''i1'' ''10.0.0.1'', exEndpoint ''i2'' ''10.0.0.2'']]] =
   Some (\<lparr>cases = [False, True],
          slots = [[], [exCluster [exEndpoint ''i1'' ''10.0.0.1'', exEndpoint ''i2'' ''10.0.0.2'']]],
          lastResult = [exCluster [exEndpoint ''i1'' ''10.0.0.1'', exEndpoint ''i2'' ''10.0.0.2'']]\<rparr>,
         [Send [exCluster [exEndpoint ''i1'' ''10.0.0.1'']],
          Send [exCluster [exEndpoint ''i1'' ''10.0.0.1'', exEndpoint ''i2'' ''10.0.0.2'']]]) \<and>
   \<not> selectable \<lparr>cases = [False, True],
          slots = [[], [exCluster [exEndpoint ''i1'' ''10.0.0.1'', exEndpoint ''i2'' ''10.0.0.2'']]],
          lastResult = [exCluster [exEndpoint ''i1'' ''10.0.0.1'', exEndpoint ''i2'' ''10.0.0.2'']]\<rparr>
        (Closed 0)"
proof -
  let ?evs = "[Recv 1 [exCluster [exEndpoint ''i1'' ''10.0.0.1'']],
      Recv 1 [exCluster [exEndpoint ''i1'' ''10.0.0.1'', exEndpoint ''i2'' ''10.0.0.2'']]]"
  let ?st' = "\<lparr>cases = [False, True],
          slots = [[], [exCluster [exEndpoint ''i1'' ''10.0.0.1'', exEndpoint ''i2'' ''10.0.0.2'']]],
          lastResult = [exCluster [exEndpoint ''i1'' ''10.0.0.1'', exEndpoint ''i2'' ''10.0.0.2'']]\<rparr>"
  note T = closed_domain_resilience [where service = "''orders''" and st = "aggInit 2"
      and i = 0 and evs = ?evs]
  have h: "list_all (\<lambda>ev. chosen ev \<noteq> 0) ?evs" by simp
  have b: "fst (watchServices_body insertionSort ''orders'' (aggInit 2) (Closed 0)) = closeCase 0 (aggInit 2)"
    using T [THEN conjunct1] by simp
  have r: "watchServices_run insertionSort ''orders'' (closeCase 0 (aggInit 2)) ?evs =
      Some (?st', [Send [exCluster [exEndpoint ''i1'' ''10.0.0.1'']],
          Send [exCluster [exEndpoint ''i1'' ''10.0.0.1'', exEndpoint ''i2'' ''10.0.0.2'']]])"
    unfolding T [THEN conjunct2, THEN conjunct2, THEN conjunct2, THEN conjunct2, THEN conjunct2,
        THEN conjunct2, THEN conjunct1, THEN mp, OF h] run_example
    by (simp add: closeCase_def)
  have n: "\<not> selectable ?st' (Closed 0)"
    using closed_domain_resilience [where service = "''orders''" and st = "aggInit 2"
      and i = 0 and evs = ?evs and st' = ?st',
      THEN conjunct2, THEN conjunct2, THEN conjunct2, THEN conjunct2, THEN conjunct2,
      THEN conjunct1, THEN mp, OF r]
    by simp
  from h b r n show ?thesis by simp
qed

subsection \<open>The comparison of cluster lists depends on their order\<close>

lemma servicesConfig_ex_ab:
  "fst (servicesConfig (AddEnvTag env) exCatalog [''a'', ''b'']
          [exCheck ''a'' ''a1'', exCheck ''b'' ''b1''] ''us'') =
     [\<lparr>Name = ''a'', Endpoints = Slice [\<lparr>ID = ''a1'', Addr = ''10.0.0.1'', Port = 8080,
                                          Tags = Slice [''dc=us'', env]\<rparr>]\<rparr>,
      \<lparr>Name = ''b'', Endpoints = Slice [\<lparr>ID = ''b1'', Addr = ''10.0.0.1'', Port = 8080,
                                          Tags = Slice [''dc=us'', env]\<rparr>]\<rparr>]"
  by (simp add: servicesConfig_def groupChecks_ex serviceConfig_def exCatalog_def exInstance_def
      endpointLoop_def endpoint_def AddEnvTag_def)

lemma servicesConfig_ex_ba:
  "fst (servicesConfig (AddEnvTag env) exCatalog [''b'', ''a'']
          [exCheck ''a'' ''a1'', exCheck ''b'' ''b1''] ''us'') =
     [\<lparr>Name = ''b'', Endpoints = Slice [\<lparr>ID = ''b1'', Addr = ''10.0.0.1'', Port = 8080,
                                          Tags = Slice [''dc=us'', env]\<rparr>]\<rparr>,
      \<lparr>Name = ''a'', Endpoints = Slice [\<lparr>ID = ''a1'', Addr = ''10.0.0.1'', Port = 8080,
                                          Tags = Slice [''dc=us'', env]\<rparr>]\<rparr>]"
  by (simp add: servicesConfig_def groupChecks_ex serviceConfig_def exCatalog_def exInstance_def
      endpointLoop_def endpoint_def AddEnvTag_def)

text \<open>
  Claim C8. Whatever sorting routine \<^verbatim>\<open>sort.Sort\<close> is, there are health checks
  and two orders in which \<^verbatim>\<open>range\<close> can visit the map of their service names,
  such that the two cluster lists that \<^verbatim>\<open>servicesConfig\<close> builds hold the same
  clusters (they are equal as multisets) and \<^verbatim>\<open>checkClusterChanged\<close> reports a
  change between them: the comparison is positional, and the order of the list it
  compares is not fixed by the grouping.
\<close>

theorem checkClusterChanged_order_sensitive:
  assumes s: "sorting srt"
  shows "\<exists>checks catalog dc order1 order2.
     rangeOrder (groupChecks checks) order1 \<and> rangeOrder (groupChecks checks) order2 \<and>
     mset (fst (servicesConfig (AddEnvTag env) catalog order1 checks dc)) =
       mset (fst (servicesConfig (AddEnvTag env) catalog order2 checks dc)) \<and>
     fst (checkClusterChanged srt (fst (servicesConfig (AddEnvTag env) catalog order1 checks dc))
                              (fst (servicesConfig (AddEnvTag env) catalog order2 checks dc)))"
proof -
  let ?checks = "[exCheck ''a'' ''a1'', exCheck ''b'' ''b1'']"
  have o1: "rangeOrder (groupChecks ?checks) [''a'', ''b'']"
    by (auto simp add: groupChecks_ex rangeOrder_def)
  have o2: "rangeOrder (groupChecks ?checks) [''b'', ''a'']"
    by (auto simp add: groupChecks_ex rangeOrder_def)
  have m: "mset (fst (servicesConfig (AddEnvTag env) exCatalog [''a'', ''b''] ?checks ''us'')) =
           mset (fst (servicesConfig (AddEnvTag env) exCatalog [''b'', ''a''] ?checks ''us''))"
    unfolding servicesConfig_ex_ab servicesConfig_ex_ba by (simp add: add.commute)
  have c: "fst (checkClusterChanged srt
                  (fst (servicesConfig (AddEnvTag env) exCatalog [''a'', ''b''] ?checks ''us''))
                  (fst (servicesConfig (AddEnvTag env) exCatalog [''b'', ''a''] ?checks ''us'')))"
    unfolding servicesConfig_ex_ab servicesConfig_ex_ba
    by (simp add: fst_checkClusterChanged sameSorted_def sorting_single [OF s])
  from o1 o2 m c show ?thesis by blast
qed

theorem checkClusterChanged_order_sensitive_witness:
  "sorting insertionSort \<and>
   (\<exists>checks catalog dc order1 order2.
     rangeOrder (groupChecks checks) order1 \<and> rangeOrder (groupChecks checks) order2 \<and>
     mset (fst (servicesConfig (AddEnvTag ''env=prod'') catalog order1 checks dc)) =
       mset (fst (servicesConfig (AddEnvTag ''env=prod'') catalog order2 checks dc)) \<and>
     fst (checkClusterChanged insertionSort
            (fst (servicesConfig (AddEnvTag ''env=prod'') catalog order1 checks dc))
            (fst (servicesConfig (AddEnvTag ''env=prod'') catalog order2 checks dc))))"
  using checkClusterChanged_order_sensitive [OF sorting_insertionSort, where env = "''env=prod''"]
    sorting_insertionSort
  by (intro conjI)

subsection \<open>Which endpoint lists the comparison leaves sorted\<close>

lemma sortedByID_sortCluster: "sorting srt \<Longrightarrow> sortedByID (sortCluster srt c)"
  by (simp add: sortedByID_def sortCluster_def sorted_sort_Sort)

lemma firstDiff_unchanged:
  assumes "\<not> fst (checkClusterChanged srt new lst)"
  shows "firstDiff srt new lst = length new" and "length lst = length new"
proof -
  from assms have l: "length new = length lst" and a: "list_all2 (sameSorted srt) new lst"
    by (simp_all add: fst_checkClusterChanged)
  from a have tw: "takeWhile (\<lambda>(c1, c2). sameSorted srt c1 c2) (zip new lst) = zip new lst"
    by (auto simp: list_all2_iff)
  show "firstDiff srt new lst = length new" unfolding firstDiff_def tw using l by simp
  from l show "length lst = length new" by simp
qed

lemma unchanged_sorted:
  assumes "sorting srt" and "\<not> fst (checkClusterChanged srt new lst)"
  shows "list_all sortedByID (fst (snd (checkClusterChanged srt new lst)))"
    and "list_all sortedByID (snd (snd (checkClusterChanged srt new lst)))"
  using firstDiff_unchanged [OF assms(2)] assms(1)
  by (simp_all add: new_checkClusterChanged list_all_iff sortedByID_sortCluster)

lemma length_new_checkClusterChanged:
  "length (fst (snd (checkClusterChanged srt new lst))) = length new"
  by (cases "length new = length lst")
     (simp_all add: new_checkClusterChanged snd_checkClusterChanged_length)

lemma singleton_compared_sorted:
  assumes "sorting srt" and "length new = 1" and "length lst = 1"
  shows "list_all sortedByID (fst (snd (checkClusterChanged srt new lst)))"
proof -
  from assms obtain c where c: "new = [c]" by (cases new) simp_all
  from assms show ?thesis
    by (simp add: new_checkClusterChanged c sortedByID_sortCluster)
qed

text \<open>
  Claim C9, amended. \<^verbatim>\<open>checkClusterChanged\<close> sorts nothing when the lengths of the
  two lists differ. When they are equal it sorts, in both lists, the endpoints of the
  clusters up to and including the first positional pair that differs, and leaves the
  clusters after it as they are; so, whatever sorting routine \<^verbatim>\<open>sort.Sort\<close> is,
  both lists are sorted throughout when it reports no change. The list the aggregator
  keeps always has one cluster, so once it has kept one, every list it keeps or sends has
  its endpoints in non-decreasing order of \<^verbatim>\<open>ID\<close>.
\<close>

theorem endpoints_sorted_after_comparison:
  "(length new \<noteq> length lst \<longrightarrow> checkClusterChanged srt new lst = (True, new, lst)) \<and>
   (length new = length lst \<longrightarrow>
      fst (snd (checkClusterChanged srt new lst)) =
        map (sortCluster srt) (take (Suc (firstDiff srt new lst)) new) @ drop (Suc (firstDiff srt new lst)) new \<and>
      snd (snd (checkClusterChanged srt new lst)) =
        map (sortCluster srt) (take (Suc (firstDiff srt new lst)) lst) @ drop (Suc (firstDiff srt new lst)) lst) \<and>
   (sorting srt \<and> \<not> fst (checkClusterChanged srt new lst) \<longrightarrow>
      list_all sortedByID (fst (snd (checkClusterChanged srt new lst))) \<and>
      list_all sortedByID (snd (snd (checkClusterChanged srt new lst)))) \<and>
   length (lastResult (fst (watchServices_body srt service st (Recv i v)))) = 1 \<and>
   (sorting srt \<and> length (lastResult st) = 1 \<longrightarrow>
      list_all sortedByID (lastResult (fst (watchServices_body srt service st (Recv i v)))) \<and>
      list_all (list_all sortedByID) (sent (snd (watchServices_body srt service st (Recv i v)))))"
proof (intro conjI impI)
  assume "length new \<noteq> length lst"
  then show "checkClusterChanged srt new lst = (True, new, lst)"
    by (simp add: checkClusterChanged_eq)
next
  assume "length new = length lst"
  then show "fst (snd (checkClusterChanged srt new lst)) =
        map (sortCluster srt) (take (Suc (firstDiff srt new lst)) new) @ drop (Suc (firstDiff srt new lst)) new"
    by (rule new_checkClusterChanged)
next
  assume "length new = length lst"
  then show "snd (snd (checkClusterChanged srt new lst)) =
        map (sortCluster srt) (take (Suc (firstDiff srt new lst)) lst) @ drop (Suc (firstDiff srt new lst)) lst"
    by (rule new_checkClusterChanged)
next
  assume "sorting srt \<and> \<not> fst (checkClusterChanged srt new lst)"
  then show "list_all sortedByID (fst (snd (checkClusterChanged srt new lst)))"
    by (simp add: unchanged_sorted)
next
  assume "sorting srt \<and> \<not> fst (checkClusterChanged srt new lst)"
  then show "list_all sortedByID (snd (snd (checkClusterChanged srt new lst)))"
    by (simp add: unchanged_sorted)
next
  show "length (lastResult (fst (watchServices_body srt service st (Recv i v)))) = 1"
    by (simp add: watchServices_body_Recv length_new_checkClusterChanged mergeResult_def)
next
  assume "sorting srt \<and> length (lastResult st) = 1"
  then have s: "sorting srt" and l: "length (lastResult st) = 1" by simp_all
  have m: "length (mergeResult service ((slots st)[i := v])) = 1"
    by (simp add: mergeResult_def)
  from singleton_compared_sorted [OF s m l]
  show "list_all sortedByID (lastResult (fst (watchServices_body srt service st (Recv i v))))"
    by (simp add: watchServices_body_Recv)
  from singleton_compared_sorted [OF s m l]
  show "list_all (list_all sortedByID) (sent (snd (watchServices_body srt service st (Recv i v))))"
    by (simp add: watchServices_body_Recv)
qed

theorem endpoints_sorted_after_comparison_witness:
  "sorting insertionSort \<and>
   length [exCluster [exEndpoint ''i2'' ''10.0.0.2'', exEndpoint ''i1'' ''10.0.0.1'']] \<noteq>
     length ([] :: Cluster list) \<and>
   checkClusterChanged insertionSort [exCluster [exEndpoint ''i2'' ''10.0.0.2'', exEndpoint ''i1'' ''10.0.0.1'']] [] =
     (True, [exCluster [exEndpoint ''i2'' ''10.0.0.2'', exEndpoint ''i1'' ''10.0.0.1'']], []) \<and>
   \<not> fst (checkClusterChanged insertionSort
       [exCluster [exEndpoint ''i2'' ''10.0.0.2'', exEndpoint ''i1'' ''10.0.0.1'']]
       [exCluster [exEndpoint ''i1'' ''10.0.0.1'', exEndpoint ''i2'' ''10.0.0.2'']]) \<and>
   list_all sortedByID (fst (snd (checkClusterChanged insertionSort
       [exCluster [exEndpoint ''i2'' ''10.0.0.2'', exEndpoint ''i1'' ''10.0.0.1'']]
       [exCluster [exEndpoint ''i1'' ''10.0.0.1'', exEndpoint ''i2'' ''10.0.0.2'']]))) \<and>
   length (lastResult (fst (watchServices_body insertionSort ''orders'' (aggInit 2)
       (Recv 0 [exCluster [exEndpoint ''i2'' ''10.0.0.2'']])))) = 1 \<and>
   list_all sortedByID (lastResult (fst (watchServices_body insertionSort ''orders''
       (fst (watchServices_body insertionSort ''orders'' (aggInit 2)
          (Recv 0 [exCluster [exEndpoint ''i2'' ''10.0.0.2'']])))
       (Recv 1 [exCluster [exEndpoint ''i1'' ''10.0.0.1'']]))))"
proof -
  let ?c21 = "exCluster [exEndpoint ''i2'' ''10.0.0.2'', exEndpoint ''i1'' ''10.0.0.1'']"
  let ?c12 = "exCluster [exEndpoint ''i1'' ''10.0.0.1'', exEndpoint ''i2'' ''10.0.0.2'']"
  let ?st1 = "fst (watchServices_body insertionSort ''orders'' (aggInit 2)
                (Recv 0 [exCluster [exEndpoint ''i2'' ''10.0.0.2'']]))"
  note h0 = sorting_insertionSort
  have h1: "length [?c21] \<noteq> length ([] :: Cluster list)" by simp
  note c1 = endpoints_sorted_after_comparison [where srt = insertionSort and new = "[?c21]"
      and lst = "[]", THEN conjunct1, THEN mp, OF h1]
  have h2: "\<not> fst (checkClusterChanged insertionSort [?c21] [?c12])"
    by (simp add: fst_checkClusterChanged sameSorted_def exCluster_def exEndpoint_def
          insertionSort_def)
  note c2 = endpoints_sorted_after_comparison [where srt = insertionSort and new = "[?c21]"
      and lst = "[?c12]", THEN conjunct2, THEN conjunct2, THEN conjunct1, THEN mp,
      OF conjI, OF h0 h2, THEN conjunct1]
  note h3 = endpoints_sorted_after_comparison [where srt = insertionSort
      and service = "''orders''" and st = "aggInit 2" and i = 0
      and v = "[exCluster [exEndpoint ''i2'' ''10.0.0.2'']]",
      THEN conjunct2, THEN conjunct2, THEN conjunct2, THEN conjunct1]
  note c3 = endpoints_sorted_after_comparison [where srt = insertionSort
      and service = "''orders''" and st = ?st1 and i = 1
      and v = "[exCluster [exEndpoint ''i1'' ''10.0.0.1'']]",
      THEN conjunct2, THEN conjunct2, THEN conjunct2, THEN conjunct2, THEN mp,
      OF conjI, OF h0 h3, THEN conjunct1]
  from h0 h1 c1 h2 c2 h3 c3 show ?thesis by (intro conjI)
qed

text \<open>
  The claim as stated fails for the first list that a watcher or the aggregator sends:
  the last list is still empty, the lengths differ, and the new list is sent and kept
  with its endpoints in the order of the catalog.
\<close>

theorem endpoints_sorted_after_comparison_counterexample:
  "sent (snd (watchService_body insertionSort passingServices (AddEnvTag ''env=test'') [''passing''] ''us''
                watchInit (exInput2 ''orders'' 7))) =
     [[\<lparr>Name = ''orders'', Endpoints = Slice
        [\<lparr>ID = ''orders2'', Addr = ''10.0.0.1'', Port = 8080,
          Tags = Slice [''dc=us'', ''env=test'']\<rparr>,
         \<lparr>ID = ''orders1'', Addr = ''10.0.0.1'', Port = 8080,
          Tags = Slice [''dc=us'', ''env=test'']\<rparr>]\<rparr>]] \<and>
   lastConfig (fst (watchService_body insertionSort passingServices (AddEnvTag ''env=test'') [''passing'']
                ''us'' watchInit (exInput2 ''orders'' 7))) =
     [\<lparr>Name = ''orders'', Endpoints = Slice
        [\<lparr>ID = ''orders2'', Addr = ''10.0.0.1'', Port = 8080,
          Tags = Slice [''dc=us'', ''env=test'']\<rparr>,
         \<lparr>ID = ''orders1'', Addr = ''10.0.0.1'', Port = 8080,
          Tags = Slice [''dc=us'', ''env=test'']\<rparr>]\<rparr>] \<and>
   watchServices_body insertionSort ''orders'' (aggInit 2)
     (Recv 0 [\<lparr>Name = ''orders'', Endpoints = Slice
        [\<lparr>ID = ''orders2'', Addr = ''10.0.0.1'', Port = 8080,
          Tags = Slice [''dc=us'', ''env=test'']\<rparr>,
         \<lparr>ID = ''orders1'', Addr = ''10.0.0.1'', Port = 8080,
          Tags = Slice [''dc=us'', ''env=test'']\<rparr>]\<rparr>]) =
     (\<lparr>cases = [True, True],
       slots = [[\<lparr>Name = ''orders'', Endpoints = Slice
        [\<lparr>ID = ''orders2'', Addr = ''10.0.0.1'', Port = 8080,
          Tags = Slice [''dc=us'', ''env=test'']\<rparr>,
         \<lparr>ID = ''orders1'', Addr = ''10.0.0.1'', Port = 8080,
          Tags = Slice [''dc=us'', ''env=test'']\<rparr>]\<rparr>], []],
       lastResult = [\<lparr>Name = ''orders'', Endpoints = Slice
        [\<lparr>ID = ''orders2'', Addr = ''10.0.0.1'', Port = 8080,
          Tags = Slice [''dc=us'', ''env=test'']\<rparr>,
         \<lparr>ID = ''orders1'', Addr = ''10.0.0.1'', Port = 8080,
          Tags = Slice [''dc=us'', ''env=test'']\<rparr>]\<rparr>]\<rparr>,
      [Send [\<lparr>Name = ''orders'', Endpoints = Slice
        [\<lparr>ID = ''orders2'', Addr = ''10.0.0.1'', Port = 8080,
          Tags = Slice [''dc=us'', ''env=test'']\<rparr>,
         \<lparr>ID = ''orders1'', Addr = ''10.0.0.1'', Port = 8080,
          Tags = Slice [''dc=us'', ''env=test'']\<rparr>]\<rparr>]]) \<and>
   \<not> sortedByID \<lparr>Name = ''orders'', Endpoints = Slice
        [\<lparr>ID = ''orders2'', Addr = ''10.0.0.1'', Port = 8080,
          Tags = Slice [''dc=us'', ''env=test'']\<rparr>,
         \<lparr>ID = ''orders1'', Addr = ''10.0.0.1'', Port = 8080,
          Tags = Slice [''dc=us'', ''env=test'']\<rparr>]\<rparr>"
  by (simp add: watchService_first2 watchServices_body_Recv aggInit_simps mergeResult_def
        mergeLoop_def len_def checkClusterChanged_eq sortedByID_def)

subsection \<open>A service without passing checks\<close>

lemma body_empty_passing:
  assumes "case in_fetch inp of FetchError \<Rightarrow> True
             | FetchOk services idx \<Rightarrow> ps (concat (map Checks services)) status = []"
    and "oldCheckers st = []"
  shows "oldCheckers (fst (watchService_body srt ps addEnvTag status dc st inp)) = [] \<and>
         lastConfig (fst (watchService_body srt ps addEnvTag status dc st inp)) = lastConfig st \<and>
         sent (snd (watchService_body srt ps addEnvTag status dc st inp)) = [] \<and>
         catalogCalls (snd (watchService_body srt ps addEnvTag status dc st inp)) = []"
proof (cases "in_fetch inp")
  case FetchError
  with assms(2) show ?thesis by (simp add: watchService_body_error)
next
  case (FetchOk services idx)
  have e: "checkCheckersEqual [] []" by (simp add: checkCheckersEqual_def checkIn_def)
  from FetchOk assms(1) have "ps (concat (map Checks services)) status = []" by simp
  with FetchOk assms(2) e show ?thesis by (simp add: watchService_body_ok)
qed

lemma run_empty_passing:
  assumes "list_all (\<lambda>inp. case in_fetch inp of FetchError \<Rightarrow> True
             | FetchOk services idx \<Rightarrow> ps (concat (map Checks services)) status = []) inps"
    and "oldCheckers st = []"
  shows "sent (snd (watchService_run srt ps addEnvTag status dc st inps)) = [] \<and>
         catalogCalls (snd (watchService_run srt ps addEnvTag status dc st inps)) = [] \<and>
         oldCheckers (fst (watchService_run srt ps addEnvTag status dc st inps)) = [] \<and>
         lastConfig (fst (watchService_run srt ps addEnvTag status dc st inps)) = lastConfig st"
  using assms
proof (induction inps arbitrary: st)
  case Nil
  then show ?case by simp
next
  case (Cons inp inps)
  from Cons.prems(1) have h: "case in_fetch inp of FetchError \<Rightarrow> True
             | FetchOk services idx \<Rightarrow> ps (concat (map Checks services)) status = []"
    and r: "list_all (\<lambda>inp. case in_fetch inp of FetchError \<Rightarrow> True
             | FetchOk services idx \<Rightarrow> ps (concat (map Checks services)) status = []) inps"
    by simp_all
  note b = body_empty_passing [where ps = ps and status = status and inp = inp and st = st
      and addEnvTag = addEnvTag and dc = dc, OF h Cons.prems(2)]
  from b have o: "oldCheckers (fst (watchService_body srt ps addEnvTag status dc st inp)) = []" ..
  from Cons.IH [OF r o] b show ?case
    by (simp add: fst_run_Cons snd_run_Cons sent_append catalogCalls_append
          del: watchService_run.simps)
qed

text \<open>
  Claim C10. Two empty lists of checks are equal for \<^verbatim>\<open>checkCheckersEqual\<close>. In a
  run of the watcher from its initial state in which every successful fetch yields an
  empty passing set, nothing is ever sent and the catalog is never looked up;
  \<^verbatim>\<open>oldCheckers\<close> and \<^verbatim>\<open>lastConfig\<close> stay empty.
\<close>

theorem no_emission_for_empty_service:
  "checkCheckersEqual [] [] \<and>
   (list_all (\<lambda>inp. case in_fetch inp of FetchError \<Rightarrow> True
       | FetchOk services idx \<Rightarrow> ps (concat (map Checks services)) status = []) inps \<longrightarrow>
    sent (snd (watchService_run srt ps addEnvTag status dc watchInit inps)) = [] \<and>
    catalogCalls (snd (watchService_run srt ps addEnvTag status dc watchInit inps)) = [] \<and>
    oldCheckers (fst (watchService_run srt ps addEnvTag status dc watchInit inps)) = [] \<and>
    lastConfig (fst (watchService_run srt ps addEnvTag status dc watchInit inps)) = [])"
proof (intro conjI impI)
  show "checkCheckersEqual [] []" by (simp add: checkCheckersEqual_def checkIn_def)
next
  assume a: "list_all (\<lambda>inp. case in_fetch inp of FetchError \<Rightarrow> True
       | FetchOk services idx \<Rightarrow> ps (concat (map Checks services)) status = []) inps"
  have o: "oldCheckers watchInit = []" by (simp add: watchInit_def)
  from run_empty_passing [where ps = ps and status = status and inps = inps
      and st = watchInit and addEnvTag = addEnvTag and dc = dc, OF a o]
  show "sent (snd (watchService_run srt ps addEnvTag status dc watchInit inps)) = []"
    and "catalogCalls (snd (watchService_run srt ps addEnvTag status dc watchInit inps)) = []"
    and "oldCheckers (fst (watchService_run srt ps addEnvTag status dc watchInit inps)) = []"
    and "lastConfig (fst (watchService_run srt ps addEnvTag status dc watchInit inps)) = []"
    by (simp_all add: watchInit_def)
qed

theorem no_emission_for_empty_service_witness:
  "list_all (\<lambda>inp. case in_fetch inp of FetchError \<Rightarrow> True
       | FetchOk services idx \<Rightarrow>
           passingServices (concat (map Checks services)) [''passing''] = [])
     [exInputNone 5, exInputError, exInputNone 6] \<and>
   sent (snd (watchService_run insertionSort passingServices (AddEnvTag ''env=test'') [''passing''] ''us''
                watchInit [exInputNone 5, exInputError, exInputNone 6])) = [] \<and>
   catalogCalls (snd (watchService_run insertionSort passingServices (AddEnvTag ''env=test'') [''passing'']
                ''us'' watchInit [exInputNone 5, exInputError, exInputNone 6])) = []"
proof -
  have h: "list_all (\<lambda>inp. case in_fetch inp of FetchError \<Rightarrow> True
       | FetchOk services idx \<Rightarrow>
           passingServices (concat (map Checks services)) [''passing''] = [])
     [exInputNone 5, exInputError, exInputNone 6]"
    by (simp add: exInputNone_def exInputError_def passingServices_def exCheck_def)
  note c = no_emission_for_empty_service [where ps = passingServices
      and status = "[''passing'']" and addEnvTag = "AddEnvTag ''env=test''" and dc = "''us''",
      THEN conjunct2, THEN mp, OF h]
  from h c [THEN conjunct1] c [THEN conjunct2, THEN conjunct1] show ?thesis by (intro conjI)
qed

end
